theory Spec2Isabelle
  imports Complex_Main
begin

section \<open>Python values used by the watcher\<close>

text \<open>
  The watcher (\<^verbatim>\<open>hyperliquid.py\<close>) works on JSON strings returned by a chain node.
  A Python \<^verbatim>\<open>str\<close> is modelled as a \<open>string\<close> whose characters are the code points
  below 256; text decoded from UTF-8 (a token symbol) is a list of code points.
  Python integers are unbounded: \<open>int\<close>.  Every exception the code can raise is a
  value of \<open>py_error\<close>, and a function that can raise returns \<open>py_error + 'a\<close>.
\<close>

datatype py_error = ValueError | IndexError | OverflowError | UnboundLocalError

type_synonym utext = "nat list"

definition ERC20_SIG :: string where
  "ERC20_SIG = ''0xddf252ad1be2c89b69c2b068fc378daa952ba7f163c4a11628f55a4df523b3ef''"

definition MAX_BLOCK_GAP :: int where
  "MAX_BLOCK_GAP = 10"

definition BATCH_SIZE :: int where
  "BATCH_SIZE = 100"

text \<open>\<^verbatim>\<open>str.lower()\<close> on code points below 256: A-Z and the Latin-1 capitals.\<close>

definition lower_char :: "char \<Rightarrow> char" where
  "lower_char c =
     (let n = (of_char c :: nat)
      in if (65 \<le> n \<and> n \<le> 90) \<or> (192 \<le> n \<and> n \<le> 222 \<and> n \<noteq> 215)
         then char_of (n + 32) else c)"

definition lower :: "string \<Rightarrow> string" where
  "lower s = map lower_char s"

definition WATCH_ADDRESS :: string where
  "WATCH_ADDRESS = lower ''0x07c249fa3902fd243ad0fa58047bE8A3262B7104''"

text \<open>\<^verbatim>\<open>s[-40:]\<close>: the last 40 characters, the whole string when it is shorter.\<close>

definition last40 :: "string \<Rightarrow> string" where
  "last40 s = drop (length s - 40) s"

text \<open>
  \<^verbatim>\<open>s[i:j]\<close> for arbitrary integers: a negative index counts from the end, and
  both ends are clamped to the string.
\<close>

definition clamp_index :: "nat \<Rightarrow> int \<Rightarrow> nat" where
  "clamp_index n i = (if i < 0 then nat (max 0 (i + int n)) else min (nat i) n)"

definition py_slice :: "'a list \<Rightarrow> int \<Rightarrow> int \<Rightarrow> 'a list" where
  "py_slice s i j =
     (let a = clamp_index (length s) i; b = clamp_index (length s) j
      in take (b - a) (drop a s))"

subsection \<open>\<^verbatim>\<open>int(s, 16)\<close>\<close>

text \<open>
  CPython's parser of an integer literal in base 16: white space on both sides, an
  optional sign, an optional \<^verbatim>\<open>0x\<close> prefix (one underscore may follow it), then at
  least one hexadecimal digit, single underscores allowed between digits.  Anything
  else raises \<^verbatim>\<open>ValueError\<close>; in particular \<^verbatim>\<open>int("0x", 16)\<close> and \<^verbatim>\<open>int("", 16)\<close> do.

  White space is of two kinds.  \<open>is_space\<close> is the ASCII white space that
  \<^verbatim>\<open>bytes.fromhex\<close> skips (it refuses every string that is not ASCII).  \<^verbatim>\<open>int\<close> first
  turns the Unicode white space beyond ASCII into blanks, which below 256 are the code
  points 133 and 160: \<open>is_int_space\<close>.
\<close>

definition is_space :: "char \<Rightarrow> bool" where
  "is_space c = (let n = (of_char c :: nat) in (9 \<le> n \<and> n \<le> 13) \<or> n = 32)"

definition is_int_space :: "char \<Rightarrow> bool" where
  "is_int_space c = (let n = (of_char c :: nat) in is_space c \<or> n = 133 \<or> n = 160)"

definition hex_digit :: "char \<Rightarrow> nat option" where
  "hex_digit c =
     (let n = (of_char c :: nat)
      in if 48 \<le> n \<and> n \<le> 57 then Some (n - 48)
         else if 97 \<le> n \<and> n \<le> 102 then Some (n - 87)
         else if 65 \<le> n \<and> n \<le> 70 then Some (n - 55)
         else None)"

text \<open>
  The digit loop: \<open>prev_us\<close> says that the previous character was an underscore,
  \<open>digits\<close> counts the digits read, \<open>acc\<close> is their value.  It stops at the first
  character that is neither a digit nor an underscore and returns the rest.
\<close>

fun scan_hex :: "string \<Rightarrow> bool \<Rightarrow> nat \<Rightarrow> nat \<Rightarrow> (nat \<times> nat \<times> string) option" where
  "scan_hex [] prev_us digits acc = (if prev_us then None else Some (digits, acc, []))"
| "scan_hex (c # cs) prev_us digits acc =
     (if c = CHR ''_'' then (if prev_us then None else scan_hex cs True digits acc)
      else (case hex_digit c of
              Some d \<Rightarrow> scan_hex cs False (Suc digits) (16 * acc + d)
            | None \<Rightarrow> (if prev_us then None else Some (digits, acc, c # cs))))"

definition strip_sign :: "string \<Rightarrow> bool \<times> string" where
  "strip_sign s =
     (case s of
        c # cs \<Rightarrow> (if c = CHR ''+'' then (False, cs)
                   else if c = CHR ''-'' then (True, cs) else (False, s))
      | [] \<Rightarrow> (False, s))"

definition strip_0x :: "string \<Rightarrow> string" where
  "strip_0x s =
     (case s of
        c # d # cs \<Rightarrow>
          (if c = CHR ''0'' \<and> (d = CHR ''x'' \<or> d = CHR ''X'')
           then (case cs of u # us \<Rightarrow> (if u = CHR ''_'' then us else cs) | [] \<Rightarrow> cs)
           else s)
      | _ \<Rightarrow> s)"

definition py_int16 :: "string \<Rightarrow> py_error + int" where
  "py_int16 s =
     (let (neg, s1) = strip_sign (dropWhile is_int_space s);
          s2 = strip_0x s1
      in if s2 \<noteq> [] \<and> hd s2 = CHR ''_'' then Inl ValueError
         else (case scan_hex s2 False 0 0 of
                 None \<Rightarrow> Inl ValueError
               | Some (digits, v, rest) \<Rightarrow>
                   if digits = 0 then Inl ValueError
                   else if dropWhile is_int_space rest \<noteq> [] then Inl ValueError
                   else Inr (if neg then - int v else int v)))"

section \<open>LogDecoder: \<^verbatim>\<open>decode_log\<close>\<close>

text \<open>
  A raw log as the node returns it.  \<open>topics\<close> is the list under the key
  \<^verbatim>\<open>"topics"\<close> (\<open>[]\<close> when the key is absent, which is the default of
  \<^verbatim>\<open>log.get("topics", [])\<close>); the other fields are \<open>None\<close> when their key is absent.
\<close>

record raw_log =
  topics :: "string list"
  data :: "string option"
  address :: "string option"
  transactionHash :: "string option"
  blockNumber :: "string option"

record transfer_event =
  ev_from :: string
  ev_to :: string
  ev_value :: int
  ev_token :: string
  ev_txHash :: string
  ev_blockNumber :: int

definition get_or :: "'a option \<Rightarrow> 'a \<Rightarrow> 'a" where
  "get_or v d = (case v of Some x \<Rightarrow> x | None \<Rightarrow> d)"

text \<open>
  \<^verbatim>\<open>decode_log\<close>: \<open>Inr None\<close> is the \<^verbatim>\<open>return None\<close> of the two shape checks,
  \<open>Inl ValueError\<close> is the exception of an \<^verbatim>\<open>int(..., 16)\<close> that the function does not
  catch.  The value is parsed before the block number, as in the source.
\<close>

definition decode_log :: "raw_log \<Rightarrow> py_error + transfer_event option" where
  "decode_log lg =
     (let ts = topics lg
      in if ts = [] \<or> ts ! 0 \<noteq> ERC20_SIG then Inr None
         else if length ts < 3 then Inr None
         else
           (let from_addr = ''0x'' @ lower (last40 (ts ! 1));
                to_addr = ''0x'' @ lower (last40 (ts ! 2))
            in case (if length ts > 3 then py_int16 (ts ! 3)
                     else py_int16 (get_or (data lg) ''0x0'')) of
                 Inl e \<Rightarrow> Inl e
               | Inr val \<Rightarrow>
                   (let token = lower (get_or (address lg) '''');
                        tx_hash = get_or (transactionHash lg) ''''
                    in case py_int16 (get_or (blockNumber lg) ''0x0'') of
                         Inl e \<Rightarrow> Inl e
                       | Inr bn \<Rightarrow>
                           Inr (Some \<lparr>ev_from = from_addr, ev_to = to_addr, ev_value = val,
                                      ev_token = token, ev_txHash = tx_hash,
                                      ev_blockNumber = bn\<rparr>))))"

section \<open>SymbolResolver: \<^verbatim>\<open>get_symbol\<close>\<close>

subsection \<open>Library functions on the returned bytes\<close>

text \<open>
  \<^verbatim>\<open>bytes.fromhex\<close>: white space is skipped before a byte, a byte is two hexadecimal
  digits, anything else raises \<^verbatim>\<open>ValueError\<close>.
\<close>

fun fromhex :: "string \<Rightarrow> py_error + nat list" where
  "fromhex [] = Inr []"
| "fromhex [c] = (if is_space c then Inr [] else Inl ValueError)"
| "fromhex (c # d # cs) =
     (if is_space c then fromhex (d # cs)
      else (case (hex_digit c, hex_digit d) of
              (Some h, Some l) \<Rightarrow>
                (case fromhex cs of Inl e \<Rightarrow> Inl e | Inr bs \<Rightarrow> Inr ((16 * h + l) # bs))
            | _ \<Rightarrow> Inl ValueError))"

text \<open>
  \<^verbatim>\<open>bytes.decode("utf-8", errors="ignore")\<close>: a well-formed sequence gives its code
  point; at an ill-formed one the bytes read so far are dropped and decoding goes on
  at the byte that did not fit.  Overlong forms, surrogates and code points above
  \<open>0x10FFFF\<close> are ill-formed (the ranges of the second byte exclude them).
\<close>

definition is_cont :: "nat \<Rightarrow> bool" where
  "is_cont b = (128 \<le> b \<and> b \<le> 191)"

definition second_ok :: "nat \<Rightarrow> nat \<Rightarrow> bool" where
  "second_ok b c =
     (if b = 224 then 160 \<le> c \<and> c \<le> 191
      else if b = 237 then 128 \<le> c \<and> c \<le> 159
      else if b = 240 then 144 \<le> c \<and> c \<le> 191
      else if b = 244 then 128 \<le> c \<and> c \<le> 143
      else is_cont c)"

fun utf8_ignore :: "nat list \<Rightarrow> utext" where
  "utf8_ignore [] = []"
| "utf8_ignore (b # bs) =
     (if b < 128 then b # utf8_ignore bs
      else if 194 \<le> b \<and> b \<le> 223 then
        (case bs of
           [] \<Rightarrow> []
         | c1 # r1 \<Rightarrow>
             if is_cont c1 then ((b - 192) * 64 + (c1 - 128)) # utf8_ignore r1
             else utf8_ignore bs)
      else if 224 \<le> b \<and> b \<le> 239 then
        (case bs of
           [] \<Rightarrow> []
         | c1 # r1 \<Rightarrow>
             if second_ok b c1 then
               (case r1 of
                  [] \<Rightarrow> []
                | c2 # r2 \<Rightarrow>
                    if is_cont c2
                    then ((b - 224) * 4096 + (c1 - 128) * 64 + (c2 - 128)) # utf8_ignore r2
                    else utf8_ignore r1)
             else utf8_ignore bs)
      else if 240 \<le> b \<and> b \<le> 244 then
        (case bs of
           [] \<Rightarrow> []
         | c1 # r1 \<Rightarrow>
             if second_ok b c1 then
               (case r1 of
                  [] \<Rightarrow> []
                | c2 # r2 \<Rightarrow>
                    if is_cont c2 then
                      (case r2 of
                         [] \<Rightarrow> []
                       | c3 # r3 \<Rightarrow>
                           if is_cont c3
                           then ((b - 240) * 262144 + (c1 - 128) * 4096 + (c2 - 128) * 64
                                   + (c3 - 128)) # utf8_ignore r3
                           else utf8_ignore r2)
                    else utf8_ignore r1)
             else utf8_ignore bs)
      else utf8_ignore bs)"

text \<open>\<^verbatim>\<open>str.strip\<close>: with an argument its characters, without one Unicode white space.\<close>

definition strip_by :: "('a \<Rightarrow> bool) \<Rightarrow> 'a list \<Rightarrow> 'a list" where
  "strip_by P s = rev (dropWhile P (rev (dropWhile P s)))"

definition rstrip_by :: "('a \<Rightarrow> bool) \<Rightarrow> 'a list \<Rightarrow> 'a list" where
  "rstrip_by P s = rev (dropWhile P (rev s))"

definition is_uspace :: "nat \<Rightarrow> bool" where
  "is_uspace n =
     ((9 \<le> n \<and> n \<le> 13) \<or> (28 \<le> n \<and> n \<le> 32) \<or> n = 133 \<or> n = 160 \<or> n = 5760
      \<or> (8192 \<le> n \<and> n \<le> 8202) \<or> n = 8232 \<or> n = 8233 \<or> n = 8239 \<or> n = 8287
      \<or> n = 12288)"

definition UNK :: utext where
  "UNK = map of_char ''UNK''"

subsection \<open>Resolution and cache\<close>

text \<open>
  The body of the \<^verbatim>\<open>try\<close> block.  \<open>reply\<close> is \<^verbatim>\<open>res.get("result")\<close> of the
  \<^verbatim>\<open>eth_call\<close> (\<open>None\<close> when \<^verbatim>\<open>rpc\<close> returned nothing or the key is absent).
  \<open>Inr (Some symb)\<close> is the \<^verbatim>\<open>return\<close> inside the block, \<open>Inr None\<close> falls through
  the \<^verbatim>\<open>if\<close>, \<open>Inl e\<close> is an exception, which \<^verbatim>\<open>get_symbol\<close> catches.
\<close>

definition symbol_hex :: "string \<Rightarrow> py_error + string" where
  "symbol_hex hexstr =
     (if length hexstr > 128 then
        (case py_int16 (take 64 hexstr) of
           Inl e \<Rightarrow> Inl e
         | Inr ofs \<Rightarrow>
             (let offset = ofs * 2
              in case py_int16 (py_slice hexstr offset (offset + 64)) of
                   Inl e \<Rightarrow> Inl e
                 | Inr len \<Rightarrow> Inr (py_slice hexstr (offset + 64) (offset + 64 + len * 2))))
      else Inr (rstrip_by (\<lambda>c. c = CHR ''0'') (drop 128 hexstr)))"

definition resolve_symbol :: "string option \<Rightarrow> py_error + utext option" where
  "resolve_symbol reply =
     (case reply of
        None \<Rightarrow> Inr None
      | Some r \<Rightarrow>
          if r = [] \<or> r = ''0x'' then Inr None
          else (case symbol_hex (drop 2 r) of
                  Inl e \<Rightarrow> Inl e
                | Inr sym_hex \<Rightarrow>
                    (case fromhex sym_hex of
                       Inl e \<Rightarrow> Inl e
                     | Inr bs \<Rightarrow>
                         (let symb = strip_by is_uspace (strip_by (\<lambda>n. n = 0) (utf8_ignore bs))
                          in Inr (Some (if symb = [] then UNK else symb))))))"

text \<open>
  \<^verbatim>\<open>get_symbol\<close> with the cache passed in and returned.  \<open>call\<close> gives the reply of
  the node to \<^verbatim>\<open>symbol()\<close> on a token address.
\<close>

definition get_symbol ::
  "(string \<Rightarrow> string option) \<Rightarrow> (string \<rightharpoonup> utext) \<Rightarrow> string \<Rightarrow> utext \<times> (string \<rightharpoonup> utext)" where
  "get_symbol call cache token_addr =
     (case cache token_addr of
        Some symb \<Rightarrow> (symb, cache)
      | None \<Rightarrow>
          (case resolve_symbol (call token_addr) of
             Inr (Some symb) \<Rightarrow> (symb, cache(token_addr \<mapsto> symb))
           | _ \<Rightarrow> (UNK, cache(token_addr \<mapsto> UNK))))"

section \<open>EndpointSelector: \<^verbatim>\<open>get_latest_block\<close> and \<^verbatim>\<open>get_best_rpc\<close>\<close>

text \<open>
  \<^verbatim>\<open>rpc\<close> retries and then returns the reply or \<^verbatim>\<open>None\<close>; it never raises.  The
  model starts from what it returns: \<open>reply\<close> is the string under \<^verbatim>\<open>"result"\<close>, or
  \<open>None\<close> when there is no reply or no such key.
\<close>

definition get_latest_block :: "string option \<Rightarrow> py_error + int" where
  "get_latest_block reply = (case reply of None \<Rightarrow> Inr 0 | Some r \<Rightarrow> py_int16 r)"

text \<open>
  One probe per entry of \<^verbatim>\<open>RPCS\<close>, in its order: the URL, the reply to
  \<^verbatim>\<open>eth_blockNumber\<close> and the measured latency (a float; only its order is used).
\<close>

type_synonym probe = "string \<times> string option \<times> real"

text \<open>
  The loop over the futures: the first probe whose \<^verbatim>\<open>get_latest_block\<close> raised
  re-raises in \<^verbatim>\<open>future.result()\<close>; a positive height is stored in the dictionary
  \<open>results\<close>, kept in insertion order (a repeated key keeps its place).
\<close>

fun dict_set :: "'k \<Rightarrow> 'v \<Rightarrow> ('k \<times> 'v) list \<Rightarrow> ('k \<times> 'v) list" where
  "dict_set k v [] = [(k, v)]"
| "dict_set k v (p # ps) = (if fst p = k then (k, v) # ps else p # dict_set k v ps)"

fun collect_results ::
  "probe list \<Rightarrow> (string \<times> int \<times> real) list \<Rightarrow> py_error + (string \<times> int \<times> real) list" where
  "collect_results [] results = Inr results"
| "collect_results ((n, reply, latency) # ps) results =
     (case get_latest_block reply of
        Inl e \<Rightarrow> Inl e
      | Inr blk \<Rightarrow>
          collect_results ps (if blk > 0 then dict_set n (blk, latency) results else results))"

text \<open>
  \<^verbatim>\<open>max(results.items(), key=lambda x: (x[1][0], -x[1][1]))\<close>: the first item whose
  key no later item exceeds; tuples compare lexicographically.
\<close>

definition key_gt :: "int \<times> real \<Rightarrow> int \<times> real \<Rightarrow> bool" where
  "key_gt a b = (fst a > fst b \<or> (fst a = fst b \<and> - snd a > - snd b))"

fun max_item :: "(string \<times> int \<times> real) \<Rightarrow> (string \<times> int \<times> real) list \<Rightarrow> (string \<times> int \<times> real)" where
  "max_item best [] = best"
| "max_item best (x # xs) = max_item (if key_gt (snd x) (snd best) then x else best) xs"

text \<open>\<^verbatim>\<open>url.split('/')[2]\<close> exists when the URL has at least two slashes.\<close>

definition has_host_part :: "string \<Rightarrow> bool" where
  "has_host_part url = (length (filter (\<lambda>c. c = CHR ''/'') url) \<ge> 2)"

definition get_best_rpc :: "probe list \<Rightarrow> py_error + (string \<times> int)" where
  "get_best_rpc probes =
     (if probes = [] then Inl ValueError
      else (case collect_results probes [] of
              Inl e \<Rightarrow> Inl e
            | Inr results \<Rightarrow>
                (case results of
                   [] \<Rightarrow> Inr (fst (hd probes), 0)
                 | r # rs \<Rightarrow>
                     (let best = max_item r rs
                      in if has_host_part (fst best) then Inr (fst best, fst (snd best))
                         else Inl IndexError))))"

section \<open>LogFetcher: \<^verbatim>\<open>get_transfer_logs_batch\<close>\<close>

text \<open>
  The \<^verbatim>\<open>while\<close> loop over the chunks of a block range.  \<open>fetch a b\<close> is the reply
  to \<^verbatim>\<open>eth_getLogs\<close> for the blocks \<open>a\<close> to \<open>b\<close> (\<open>None\<close> when the request failed,
  and then the chunk is dropped).  Besides \<^verbatim>\<open>all_logs\<close> the model returns the
  ranges it asked the node for, in order: the requests are the effect of the loop.
\<close>

function get_transfer_logs_loop ::
  "(int \<Rightarrow> int \<Rightarrow> raw_log list option) \<Rightarrow> int \<Rightarrow> int \<Rightarrow> raw_log list \<Rightarrow> (int \<times> int) list
     \<Rightarrow> raw_log list \<times> (int \<times> int) list" where
  "get_transfer_logs_loop fetch current end_block all_logs asked =
     (if current \<le> end_block then
        (let batch_end = min (current + BATCH_SIZE - 1) end_block
         in get_transfer_logs_loop fetch (batch_end + 1) end_block
              (case fetch current batch_end of Some ls \<Rightarrow> all_logs @ ls | None \<Rightarrow> all_logs)
              (asked @ [(current, batch_end)]))
      else (all_logs, asked))"
  by pat_completeness auto
termination
  by (relation "measure (\<lambda>(fetch, current, end_block, all_logs, asked). nat (end_block + 1 - current))")
     (auto simp: BATCH_SIZE_def)

definition get_transfer_logs_batch ::
  "(int \<Rightarrow> int \<Rightarrow> raw_log list option) \<Rightarrow> int \<Rightarrow> int \<Rightarrow> raw_log list \<times> (int \<times> int) list" where
  "get_transfer_logs_batch fetch start_block end_block =
     get_transfer_logs_loop fetch start_block end_block [] []"

section \<open>DeliveryQueue: \<^verbatim>\<open>send_to_zapier\<close> and \<^verbatim>\<open>zapier_worker\<close>\<close>

datatype direction = BUY | SELL

text \<open>
  The payload handed to the sink.  \<open>p_value\<close> is the integer value of the transfer:
  the JSON field \<^verbatim>\<open>amount\<close> is the float \<^verbatim>\<open>round(value / 1e18, 6)\<close>, a function of it.
\<close>

record payload =
  p_direction :: direction
  p_symbol :: utext
  p_value :: int
  p_txHash :: string
  p_block :: int
  p_timestamp :: int
  p_from :: string
  p_to :: string
  p_token :: string

definition send_to_zapier :: "'p \<Rightarrow> 'p list \<Rightarrow> 'p list" where
  "send_to_zapier p queue = queue @ [p]"

text \<open>
  One iteration of the worker's loop.  The worker takes the lock, pops the head,
  releases the lock and posts; the poll loop may append under the lock meanwhile
  (\<open>arrivals\<close>); if the post raised, the worker takes the lock again and inserts the
  payload at index 0.  The result is the queue after the iteration and the payload
  for which the sink returned a response, if any.
\<close>

datatype post_result = Post_raised | Response int

fun zapier_worker_step :: "post_result \<Rightarrow> 'p list \<Rightarrow> 'p list \<Rightarrow> 'p list \<times> 'p option" where
  "zapier_worker_step r arrivals [] = (arrivals, None)"
| "zapier_worker_step Post_raised arrivals (p # rest) = (p # (rest @ arrivals), None)"
| "zapier_worker_step (Response code) arrivals (p # rest) = (rest @ arrivals, Some p)"

text \<open>The worker over a schedule of post results and arrivals; \<open>sent\<close> lists the
  payloads the sink answered, in the order of the answers.\<close>

fun zapier_worker :: "(post_result \<times> 'p list) list \<Rightarrow> 'p list \<Rightarrow> 'p list \<Rightarrow> 'p list \<times> 'p list" where
  "zapier_worker [] queue sent = (queue, sent)"
| "zapier_worker ((r, arrivals) # sched) queue sent =
     (case zapier_worker_step r arrivals queue of
        (queue', None) \<Rightarrow> zapier_worker sched queue' sent
      | (queue', Some p) \<Rightarrow> zapier_worker sched queue' (sent @ [p]))"

section \<open>PollLoop: \<^verbatim>\<open>main\<close>\<close>

text \<open>
  The variables of \<^verbatim>\<open>main\<close> and the module's globals.  \<open>blocks_behind\<close> is \<open>None\<close>
  while the local variable is unbound.  \<open>requested\<close> records the block ranges asked
  of the node with \<^verbatim>\<open>eth_getLogs\<close>, in order.
\<close>

record watcher =
  node :: string
  last_block :: int
  consecutive_errors :: int
  blocks_behind :: "int option"
  symbol_cache :: "string \<rightharpoonup> utext"
  processed_txs :: "string list"
  zapier_queue :: "payload list"
  requested :: "(int \<times> int) list"

text \<open>
  What the world answers during one iteration of the loop: whether 30 seconds have
  passed since the last endpoint check, the probes of each of the three calls of
  \<^verbatim>\<open>get_best_rpc\<close> (line 215, line 225 and line 311), the reply to
  \<^verbatim>\<open>eth_blockNumber\<close>, the replies to \<^verbatim>\<open>eth_getLogs\<close> and to \<^verbatim>\<open>symbol()\<close>, and the
  clock.
\<close>

record env =
  recheck_due :: bool
  probes_periodic :: "probe list"
  latest_reply :: "string option"
  probes_errors :: "probe list"
  get_logs :: "int \<Rightarrow> int \<Rightarrow> raw_log list option"
  symbol_call :: "string \<Rightarrow> string option"
  now :: int
  probes_handler :: "probe list"

datatype sleep = Sleep_fast | Sleep_base | Sleep_jitter

datatype flow = Exc py_error | Continue | Sleep sleep

text \<open>\<^verbatim>\<open>deque(maxlen=1000).append\<close>: the oldest entry leaves a full deque.\<close>

definition deque_append :: "'a list \<Rightarrow> 'a \<Rightarrow> 'a list" where
  "deque_append d x = (let d' = d @ [x] in drop (length d' - 1000) d')"

text \<open>
  \<^verbatim>\<open>value / 1e18\<close> converts the integer to a float first and raises
  \<^verbatim>\<open>OverflowError\<close> when it rounds beyond the largest double.
\<close>

definition float_overflows :: "int \<Rightarrow> bool" where
  "float_overflows v = (\<bar>v\<bar> \<ge> 2 ^ 1024 - 2 ^ 970)"

text \<open>
  The \<^verbatim>\<open>for lg in logs\<close> loop.  An exception leaves the loop with the state as it
  is at that point; it is not caught before the handler of \<^verbatim>\<open>main\<close>.
\<close>

fun process_logs :: "env \<Rightarrow> raw_log list \<Rightarrow> watcher \<Rightarrow> py_error option \<times> watcher" where
  "process_logs e [] s = (None, s)"
| "process_logs e (lg # logs) s =
     (case decode_log lg of
        Inl err \<Rightarrow> (Some err, s)
      | Inr None \<Rightarrow> process_logs e logs s
      | Inr (Some decoded) \<Rightarrow>
          if WATCH_ADDRESS \<noteq> ev_from decoded \<and> WATCH_ADDRESS \<noteq> ev_to decoded
          then process_logs e logs s
          else if ev_txHash decoded \<in> set (processed_txs s) then process_logs e logs s
          else
            (let tx_id = ev_txHash decoded;
                 s1 = s\<lparr>processed_txs := deque_append (processed_txs s) tx_id\<rparr>;
                 (symb, cache) = get_symbol (symbol_call e) (symbol_cache s1) (ev_token decoded);
                 s2 = s1\<lparr>symbol_cache := cache\<rparr>;
                 dir = (if WATCH_ADDRESS = ev_to decoded then BUY else SELL)
             in if float_overflows (ev_value decoded) then (Some OverflowError, s2)
                else
                  (let p = \<lparr>p_direction = dir, p_symbol = symb, p_value = ev_value decoded,
                            p_txHash = tx_id, p_block = ev_blockNumber decoded,
                            p_timestamp = now e, p_from = ev_from decoded,
                            p_to = ev_to decoded, p_token = ev_token decoded\<rparr>
                   in process_logs e logs
                        (s2\<lparr>zapier_queue := send_to_zapier p (zapier_queue s2)\<rparr>))))"

text \<open>Lines 214 to 219: the periodic endpoint check.\<close>

definition periodic_check :: "env \<Rightarrow> watcher \<Rightarrow> py_error option \<times> watcher" where
  "periodic_check e s =
     (if recheck_due e then
        (case get_best_rpc (probes_periodic e) of
           Inl err \<Rightarrow> (Some err, s)
         | Inr (new_node, h) \<Rightarrow>
             if new_node \<noteq> node s then
               (if has_host_part new_node then (None, s\<lparr>node := new_node\<rparr>)
                else (Some IndexError, s\<lparr>node := new_node\<rparr>))
             else (None, s))
      else (None, s))"

text \<open>Lines 222 to 228: the height query returned zero.\<close>

definition zero_height :: "env \<Rightarrow> watcher \<Rightarrow> flow \<times> watcher" where
  "zero_height e s =
     (let s1 = s\<lparr>consecutive_errors := consecutive_errors s + 1\<rparr>
      in if consecutive_errors s1 > 3 then
           (case get_best_rpc (probes_errors e) of
              Inl err \<Rightarrow> (Exc err, s1)
            | Inr (n, h) \<Rightarrow> (Continue, s1\<lparr>node := n, consecutive_errors := 0\<rparr>))
         else (Continue, s1))"

text \<open>Lines 233 to 291: the branch \<^verbatim>\<open>latest > last_block\<close>.\<close>

definition new_blocks :: "env \<Rightarrow> int \<Rightarrow> watcher \<Rightarrow> py_error option \<times> watcher" where
  "new_blocks e latest s =
     (let behind = latest - last_block s;
          s1 = s\<lparr>blocks_behind := Some behind\<rparr>;
          s2 = (if behind > MAX_BLOCK_GAP then s1\<lparr>last_block := latest - 2\<rparr> else s1);
          process_from = last_block s2 + 1;
          process_to = latest;
          (logs, asked) = get_transfer_logs_batch (get_logs e) process_from process_to;
          s3 = s2\<lparr>requested := requested s2 @ asked\<rparr>
      in case process_logs e logs s3 of
           (Some err, s4) \<Rightarrow> (Some err, s4)
         | (None, s4) \<Rightarrow> (None, s4\<lparr>last_block := latest\<rparr>))"

text \<open>
  Lines 293 to 301: the sleep, chosen from \<^verbatim>\<open>blocks_behind\<close>: 0.1 seconds,
  \<^verbatim>\<open>SLEEP_BASE\<close>, or \<^verbatim>\<open>SLEEP_BASE\<close> and a random part.  Reading the variable while
  it is unbound raises \<^verbatim>\<open>UnboundLocalError\<close>.
\<close>

definition sleep_of :: "int \<Rightarrow> sleep" where
  "sleep_of behind =
     (if behind > 5 then Sleep_fast else if behind > 1 then Sleep_base else Sleep_jitter)"

definition dynamic_sleep :: "watcher \<Rightarrow> flow \<times> watcher" where
  "dynamic_sleep s =
     (case blocks_behind s of
        None \<Rightarrow> (Exc UnboundLocalError, s)
      | Some behind \<Rightarrow> (Sleep (sleep_of behind), s))"

text \<open>The body of the \<^verbatim>\<open>try\<close> block of one iteration.\<close>

definition loop_body :: "env \<Rightarrow> watcher \<Rightarrow> flow \<times> watcher" where
  "loop_body e s =
     (case periodic_check e s of
        (Some err, s1) \<Rightarrow> (Exc err, s1)
      | (None, s1) \<Rightarrow>
          (case get_latest_block (latest_reply e) of
             Inl err \<Rightarrow> (Exc err, s1)
           | Inr latest \<Rightarrow>
               if latest = 0 then zero_height e s1
               else
                 (let s2 = s1\<lparr>consecutive_errors := 0\<rparr>
                  in if latest > last_block s2 then
                       (case new_blocks e latest s2 of
                          (Some err, s3) \<Rightarrow> (Exc err, s3)
                        | (None, s3) \<Rightarrow> dynamic_sleep s3)
                     else dynamic_sleep s2)))"

text \<open>
  One iteration with the handler \<^verbatim>\<open>except Exception\<close> (lines 306 to 313).  An
  exception of \<^verbatim>\<open>get_best_rpc\<close> inside the handler is not caught: \<open>Crashed\<close>.
\<close>

datatype outcome = Slept sleep | Retried | Handled py_error | Crashed py_error

definition tick :: "env \<Rightarrow> watcher \<Rightarrow> outcome \<times> watcher" where
  "tick e s =
     (case loop_body e s of
        (Sleep sl, s1) \<Rightarrow> (Slept sl, s1)
      | (Continue, s1) \<Rightarrow> (Retried, s1)
      | (Exc err, s1) \<Rightarrow>
          (let s2 = s1\<lparr>consecutive_errors := consecutive_errors s1 + 1\<rparr>
           in if consecutive_errors s2 > 5 then
                (case get_best_rpc (probes_handler e) of
                   Inl err2 \<Rightarrow> (Crashed err2, s2)
                 | Inr (n, h) \<Rightarrow>
                     (Handled err, s2\<lparr>node := n, last_block := h, consecutive_errors := 0\<rparr>))
              else (Handled err, s2)))"

text \<open>
  The start of \<^verbatim>\<open>main\<close> (line 204, outside the \<^verbatim>\<open>try\<close>) and the loop over a list
  of iterations; the loop ends when an iteration crashed.
\<close>

definition start :: "probe list \<Rightarrow> py_error + watcher" where
  "start probes =
     (case get_best_rpc probes of
        Inl err \<Rightarrow> Inl err
      | Inr (n, h) \<Rightarrow>
          Inr \<lparr>node = n, last_block = h, consecutive_errors = 0, blocks_behind = None,
               symbol_cache = Map.empty, processed_txs = [], zapier_queue = [],
               requested = []\<rparr>)"

fun run :: "env list \<Rightarrow> watcher \<Rightarrow> outcome list \<times> watcher" where
  "run [] s = ([], s)"
| "run (e # es) s =
     (case tick e s of
        (Crashed err, s1) \<Rightarrow> ([Crashed err], s1)
      | (out, s1) \<Rightarrow> (case run es s1 of (outs, s2) \<Rightarrow> (out # outs, s2)))"

section \<open>Reference definitions and example inputs\<close>

text \<open>
  A well-formed hexadecimal word is \<^verbatim>\<open>0x\<close> followed by at least one hexadecimal
  digit.  Its bytes are its digits taken in pairs (a leading zero digit added when
  their number is odd), and the integer it encodes is the big-endian value of the
  bytes.
\<close>

definition hex_word :: "string \<Rightarrow> bool" where
  "hex_word ds = (ds \<noteq> [] \<and> list_all (\<lambda>c. hex_digit c \<noteq> None) ds)"

definition digit_of :: "char \<Rightarrow> nat" where
  "digit_of c = (case hex_digit c of Some d \<Rightarrow> d | None \<Rightarrow> 0)"

fun spec_bytes :: "string \<Rightarrow> nat list" where
  "spec_bytes (c # d # cs) = (16 * digit_of c + digit_of d) # spec_bytes cs"
| "spec_bytes cs = []"

definition spec_payload_bytes :: "string \<Rightarrow> nat list" where
  "spec_payload_bytes ds = spec_bytes (if odd (length ds) then CHR ''0'' # ds else ds)"

definition spec_be_uint :: "nat list \<Rightarrow> nat" where
  "spec_be_uint bs = foldl (\<lambda>a b. 256 * a + b) 0 bs"

text \<open>A Transfer log of 1 token (18 decimals) to the watched address.\<close>

definition example_log :: raw_log where
  "example_log =
     \<lparr>topics = [ERC20_SIG,
                ''0x000000000000000000000000AbCdEf0123456789aBcDeF0123456789abcdef01'',
                ''0x00000000000000000000000007c249fa3902fd243ad0fa58047bE8A3262B7104''],
      data = Some ''0x0000000000000000000000000000000000000000000000000de0b6b3a7640000'',
      address = Some ''0xB8CE59FC3717ada4C02eaDF9682A9e934F625ebb'',
      transactionHash = Some ''0x5c504ed432cb51138bcf09aa5e8a410dd4a1e204ef84bfed1be16dfba1b22060'',
      blockNumber = Some ''0x1b4''\<rparr>"

definition MKR_slot :: string where
  "MKR_slot = ''0x4d4b520000000000000000000000000000000000000000000000000000000000''"

definition watcher_at :: "int \<Rightarrow> watcher" where
  "watcher_at h =
     \<lparr>node = ''http://a/x'', last_block = h, consecutive_errors = 0, blocks_behind = None,
      symbol_cache = Map.empty, processed_txs = [], zapier_queue = [], requested = []\<rparr>"

definition env_with :: "string option \<Rightarrow> raw_log list \<Rightarrow> env" where
  "env_with reply logs =
     \<lparr>recheck_due = False, probes_periodic = [], latest_reply = reply,
      probes_errors = [], get_logs = (\<lambda>a b. Some logs), symbol_call = (\<lambda>t. None),
      now = 1700000000, probes_handler = [(''http://a/x'', None, 0)]\<rparr>"

text \<open>
  What claim C10 says of a queued payload: the watched address is its \<open>from\<close> or its
  \<open>to\<close>, the direction is \<open>BUY\<close> exactly when the watched address is its \<open>to\<close> and
  \<open>SELL\<close> otherwise, and both addresses are those of a decoded log, in lower case.
\<close>

definition relevant_payload :: "payload \<Rightarrow> bool" where
  "relevant_payload p =
     ((WATCH_ADDRESS = p_from p \<or> WATCH_ADDRESS = p_to p)
      \<and> (p_direction p = BUY \<longleftrightarrow> WATCH_ADDRESS = p_to p)
      \<and> (p_direction p = SELL \<longleftrightarrow> WATCH_ADDRESS \<noteq> p_to p)
      \<and> (\<exists>lg d. decode_log lg = Inr (Some d)
             \<and> p_from p = ev_from d \<and> p_to p = ev_to d
             \<and> ev_from d = ''0x'' @ lower (last40 (topics lg ! 1))
             \<and> ev_to d = ''0x'' @ lower (last40 (topics lg ! 2))))"

text \<open>The example log with an empty data payload.\<close>

definition empty_payload_log :: raw_log where
  "empty_payload_log = example_log\<lparr>data := Some ''0x''\<rparr>"

definition example_payload :: payload where
  "example_payload =
     \<lparr>p_direction = BUY, p_symbol = UNK, p_value = 1000000000000000000,
      p_txHash = ''0x5c504ed432cb51138bcf09aa5e8a410dd4a1e204ef84bfed1be16dfba1b22060'',
      p_block = 436, p_timestamp = 1700000000,
      p_from = ''0xabcdef0123456789abcdef0123456789abcdef01'',
      p_to = ''0x07c249fa3902fd243ad0fa58047be8a3262b7104'',
      p_token = ''0xb8ce59fc3717ada4c02eadf9682a9e934f625ebb''\<rparr>"

text \<open>Two endpoints that do not answer the height query.\<close>

definition silent_probes :: "probe list" where
  "silent_probes = [(''http://a/x'', None, 0.2), (''http://b/x'', None, 0.1)]"

text \<open>The height a probe reports: what \<^verbatim>\<open>get_latest_block\<close> returned for it.\<close>

definition reported :: "probe \<Rightarrow> int" where
  "reported p = (case get_latest_block (fst (snd p)) of Inr b \<Rightarrow> b | Inl e \<Rightarrow> 0)"

text \<open>Four endpoints: two tied at the greatest height, one behind, one silent.\<close>

definition example_probes :: "probe list" where
  "example_probes =
     [(''http://a/x'', Some ''0x64'', 1 / 2), (''http://b/x'', Some ''0x69'', 3 / 10),
      (''http://c/x'', Some ''0x69'', 1 / 10), (''http://d/x'', None, 0)]"

text \<open>
  A list of iterations keeps the cursor when no iteration leaves \<open>last_block\<close> below
  the value it began with (the list is followed as \<open>run\<close> follows it).
\<close>

fun cursor_kept :: "env list \<Rightarrow> watcher \<Rightarrow> bool" where
  "cursor_kept [] s = True"
| "cursor_kept (e # es) s =
     (case tick e s of
        (Crashed err, s1) \<Rightarrow> last_block s \<le> last_block s1
      | (out, s1) \<Rightarrow> last_block s \<le> last_block s1 \<and> cursor_kept es s1)"

text \<open>
  An iteration whose height reply is the malformed \<^verbatim>\<open>0x\<close>, while the only endpoint
  the handler can select lags at height 430.
\<close>

definition lagging_env :: env where
  "lagging_env =
     (env_with (Some ''0x'') [])\<lparr>probes_handler := [(''http://a/x'', Some ''0x1ae'', 0)]\<rparr>"

text \<open>
  The endpoint \<open>a\<close> listed twice, all three probes at the same height, the first the
  fastest; and one endpoint at height 105 beside one whose reply is the malformed
  \<^verbatim>\<open>0x\<close>.
\<close>

definition repeated_probes :: "probe list" where
  "repeated_probes =
     [(''http://a/x'', Some ''0x69'', 1 / 10), (''http://b/x'', Some ''0x69'', 2 / 10),
      (''http://a/x'', Some ''0x69'', 3 / 10)]"

definition malformed_probes :: "probe list" where
  "malformed_probes = [(''http://a/x'', Some ''0x69'', 1 / 10), (''http://b/x'', Some ''0x'', 2 / 10)]"

section \<open>Verification\<close>

subsection \<open>LogDecoder\<close>

lemma hex_digit_underscore: "hex_digit c \<noteq> None \<Longrightarrow> c \<noteq> CHR ''_''"
  by (auto simp: hex_digit_def)

lemma scan_hex_digits:
  "list_all (\<lambda>c. hex_digit c \<noteq> None) ds \<Longrightarrow>
   scan_hex ds False n acc = Some (n + length ds, foldl (\<lambda>a c. 16 * a + digit_of c) acc ds, [])"
proof (induction ds arbitrary: n acc)
  case Nil
  then show ?case by simp
next
  case (Cons c cs)
  then obtain d where d: "hex_digit c = Some d" by auto
  from Cons.prems have "c \<noteq> CHR ''_''" by (auto simp: hex_digit_def)
  with Cons d show ?case by (simp add: digit_of_def)
qed

lemma py_int16_hex_word:
  assumes "hex_word ds"
  shows "py_int16 (''0x'' @ ds) = Inr (int (foldl (\<lambda>a c. 16 * a + digit_of c) 0 ds))"
proof -
  let ?s = "CHR ''0'' # CHR ''x'' # ds"
  from assms obtain c cs where ds: "ds = c # cs" and c: "hex_digit c \<noteq> None"
    and all: "list_all (\<lambda>c. hex_digit c \<noteq> None) ds"
    by (cases ds) (auto simp: hex_word_def)
  have us: "c \<noteq> CHR ''_''" using c by (rule hex_digit_underscore)
  have a: "dropWhile is_int_space ?s = ?s" by (simp add: is_int_space_def is_space_def)
  have b: "strip_sign ?s = (False, ?s)" by (simp add: strip_sign_def)
  have c': "strip_0x ?s = ds" using us by (simp add: strip_0x_def ds)
  have hd: "ds \<noteq> [] \<and> hd ds \<noteq> CHR ''_''" using us by (simp add: ds)
  have len: "length ds \<noteq> 0" by (simp add: ds)
  note sc = scan_hex_digits [OF all, of 0 0]
  have "py_int16 ?s = Inr (int (foldl (\<lambda>a c. 16 * a + digit_of c) 0 ds))"
    unfolding py_int16_def a b by (simp add: c' hd sc len del: scan_hex.simps)
  then show ?thesis by simp
qed

lemma foldl_bytes:
  "even (length ds) \<Longrightarrow>
   foldl (\<lambda>a c. 16 * a + digit_of c) acc ds = foldl (\<lambda>a b. 256 * a + b) acc (spec_bytes ds)"
proof (induction ds arbitrary: acc rule: spec_bytes.induct)
  case (1 c d cs)
  then show ?case by (simp add: algebra_simps)
qed auto

lemma digit_of_zero: "digit_of CHR ''0'' = 0"
  by (simp add: digit_of_def hex_digit_def)

lemma hex_value_be_uint:
  "foldl (\<lambda>a c. 16 * a + digit_of c) 0 ds = spec_be_uint (spec_payload_bytes ds)"
proof (cases "odd (length ds)")
  case True
  then have "even (length (CHR ''0'' # ds))" by simp
  from foldl_bytes [OF this, of 0] show ?thesis
    using True by (simp add: spec_be_uint_def spec_payload_bytes_def digit_of_zero)
next
  case False
  then show ?thesis
    using foldl_bytes [of ds 0] by (simp add: spec_be_uint_def spec_payload_bytes_def)
qed

lemma py_int16_be_uint:
  "hex_word ds \<Longrightarrow> py_int16 (''0x'' @ ds) = Inr (int (spec_be_uint (spec_payload_bytes ds)))"
  using py_int16_hex_word [of ds] hex_value_be_uint [of ds] by simp


lemma py_int16_0x: "py_int16 ''0x'' = Inl ValueError"
  by (simp add: py_int16_def strip_sign_def strip_0x_def is_int_space_def is_space_def)

lemma last40_word: "length t = 66 \<Longrightarrow> last40 t = drop 26 t"
  by (simp add: last40_def)

lemma decode_log_well_formed:
  assumes ts: "topics lg = ERC20_SIG # t1 # t2 # extra"
    and l1: "length t1 = 66" and l2: "length t2 = 66"
    and w: "(if extra = [] then get_or (data lg) ''0x0'' else hd extra) = ''0x'' @ ds"
    and ds: "hex_word ds"
    and b: "get_or (blockNumber lg) ''0x0'' = ''0x'' @ bn" and bn: "hex_word bn"
  shows "decode_log lg =
     Inr (Some \<lparr>ev_from = ''0x'' @ lower (drop 26 t1), ev_to = ''0x'' @ lower (drop 26 t2),
                ev_value = int (spec_be_uint (spec_payload_bytes ds)),
                ev_token = lower (get_or (address lg) ''''),
                ev_txHash = get_or (transactionHash lg) '''',
                ev_blockNumber = int (spec_be_uint (spec_payload_bytes bn))\<rparr>)"
proof -
  have v: "(if length (topics lg) > 3 then py_int16 (topics lg ! 3)
            else py_int16 (get_or (data lg) ''0x0''))
           = Inr (int (spec_be_uint (spec_payload_bytes ds)))"
  proof (cases extra)
    case Nil
    with w ts py_int16_be_uint [OF ds] show ?thesis by simp
  next
    case (Cons m ms)
    with w ts py_int16_be_uint [OF ds] show ?thesis by simp
  qed
  have n: "py_int16 (get_or (blockNumber lg) ''0x0'') = Inr (int (spec_be_uint (spec_payload_bytes bn)))"
    using b py_int16_be_uint [OF bn] by simp
  have sh: "topics lg \<noteq> []" "topics lg ! 0 = ERC20_SIG" "\<not> length (topics lg) < 3"
    "topics lg ! 1 = t1" "topics lg ! 2 = t2"
    using ts by simp_all
  show ?thesis
    unfolding decode_log_def Let_def
    by (simp only: sh v n last40_word [OF l1] last40_word [OF l2]) simp
qed

lemma decode_log_no_event:
  "length (topics lg) < 3 \<or> hd (topics lg) \<noteq> ERC20_SIG \<Longrightarrow> decode_log lg = Inr None"
  by (cases "topics lg") (auto simp: decode_log_def Let_def)

text \<open>
  Claim C2, as amended.  A log whose first topic is the Transfer signature and that has
  at least three topics decodes to an event when its second and third topic are 32-byte
  words (66 characters) and its value word (the fourth topic when there is one, the data
  payload otherwise) and its block number are well-formed hexadecimal words (\<^verbatim>\<open>0x\<close> and
  at least one digit): \<open>from\<close> and \<open>to\<close> are \<^verbatim>\<open>0x\<close> and the low 20 bytes of the second
  and third topic, in lower case, and the value is the big-endian unsigned integer of
  the value word, never negative.  A log with fewer than three topics, or with another
  first topic, gives no event.
\<close>

theorem decode_log_transfer:
  "(topics lg = ERC20_SIG # t1 # t2 # extra \<and> length t1 = 66 \<and> length t2 = 66
      \<and> (if extra = [] then get_or (data lg) ''0x0'' else hd extra) = ''0x'' @ ds \<and> hex_word ds
      \<and> get_or (blockNumber lg) ''0x0'' = ''0x'' @ bn \<and> hex_word bn
    \<longrightarrow> decode_log lg =
          Inr (Some \<lparr>ev_from = ''0x'' @ lower (drop 26 t1), ev_to = ''0x'' @ lower (drop 26 t2),
                     ev_value = int (spec_be_uint (spec_payload_bytes ds)),
                     ev_token = lower (get_or (address lg) ''''),
                     ev_txHash = get_or (transactionHash lg) '''',
                     ev_blockNumber = int (spec_be_uint (spec_payload_bytes bn))\<rparr>)
        \<and> (\<forall>ev. decode_log lg = Inr (Some ev) \<longrightarrow> 0 \<le> ev_value ev))
   \<and> (length (topics lg) < 3 \<or> hd (topics lg) \<noteq> ERC20_SIG \<longrightarrow> decode_log lg = Inr None)"
  using decode_log_well_formed [of lg t1 t2 extra ds bn] decode_log_no_event [of lg]
  by auto

theorem decode_log_transfer_witness:
  "decode_log example_log =
     Inr (Some \<lparr>ev_from = ''0xabcdef0123456789abcdef0123456789abcdef01'',
                ev_to = ''0x07c249fa3902fd243ad0fa58047be8a3262b7104'',
                ev_value = 1000000000000000000,
                ev_token = ''0xb8ce59fc3717ada4c02eadf9682a9e934f625ebb'',
                ev_txHash = ''0x5c504ed432cb51138bcf09aa5e8a410dd4a1e204ef84bfed1be16dfba1b22060'',
                ev_blockNumber = 436\<rparr>)
   \<and> decode_log (example_log\<lparr>topics := take 2 (topics example_log)\<rparr>) = Inr None"
proof -
  have h: "hex_word ''0000000000000000000000000000000000000000000000000de0b6b3a7640000''"
    "hex_word ''1b4''"
    by (simp_all add: hex_word_def hex_digit_def)
  have v: "int (spec_be_uint (spec_payload_bytes
             ''0000000000000000000000000000000000000000000000000de0b6b3a7640000'')) = 1000000000000000000"
    "int (spec_be_uint (spec_payload_bytes ''1b4'')) = 436"
    by (simp_all add: spec_be_uint_def spec_payload_bytes_def digit_of_def hex_digit_def)
  have lw: "lower ''AbCdEf0123456789aBcDeF0123456789abcdef01''
              = ''abcdef0123456789abcdef0123456789abcdef01''"
    "lower ''07c249fa3902fd243ad0fa58047bE8A3262B7104''
              = ''07c249fa3902fd243ad0fa58047be8a3262b7104''"
    "lower ''0xB8CE59FC3717ada4C02eaDF9682A9e934F625ebb'' = ''0xb8ce59fc3717ada4c02eadf9682a9e934f625ebb''"
    by code_simp+
  show ?thesis
    using decode_log_transfer [of example_log
        "''0x000000000000000000000000AbCdEf0123456789aBcDeF0123456789abcdef01''"
        "''0x00000000000000000000000007c249fa3902fd243ad0fa58047bE8A3262B7104''"
        "[]" "''0000000000000000000000000000000000000000000000000de0b6b3a7640000''" "''1b4''"]
      decode_log_transfer [of "example_log\<lparr>topics := take 2 (topics example_log)\<rparr>"]
    by (simp add: example_log_def get_or_def h v lw)
qed

text \<open>
  Claim C2 as stated fails on logs that have the signature and three topics: the
  payload \<^verbatim>\<open>-0x10\<close> decodes to the value -16; the empty payload \<^verbatim>\<open>0x\<close> and the block
  number \<^verbatim>\<open>0x\<close> make \<^verbatim>\<open>int\<close> raise, so no event is returned; and the topic \<^verbatim>\<open>0x1\<close>,
  which is not a 32-byte word, gives the sender \<^verbatim>\<open>0x0x1\<close>, which is not 20 bytes.
\<close>

theorem decode_log_transfer_counterexample:
  "map_sum id (map_option ev_value) (decode_log (example_log\<lparr>data := Some ''-0x10''\<rparr>))
     = Inr (Some (- 16))
   \<and> decode_log (example_log\<lparr>data := Some ''0x''\<rparr>) = Inl ValueError
   \<and> decode_log (example_log\<lparr>blockNumber := Some ''0x''\<rparr>) = Inl ValueError
   \<and> map_sum id (map_option ev_from)
        (decode_log (example_log\<lparr>topics := [ERC20_SIG, ''0x1'', ''0x2'']\<rparr>))
     = Inr (Some ''0x0x1'')"
proof -
  have n: "py_int16 ''-0x10'' = Inr (- 16)"
    by (simp add: py_int16_def strip_sign_def strip_0x_def is_int_space_def is_space_def
        hex_digit_def)
  have h: "hex_word ''0000000000000000000000000000000000000000000000000de0b6b3a7640000''"
    "hex_word ''1b4''"
    by (simp_all add: hex_word_def hex_digit_def)
  have d: "py_int16 ''0x0000000000000000000000000000000000000000000000000de0b6b3a7640000''
             = Inr 1000000000000000000"
    "py_int16 ''0x1b4'' = Inr 436"
    using py_int16_be_uint [OF h(1)] py_int16_be_uint [OF h(2)]
    by (simp_all add: spec_be_uint_def spec_payload_bytes_def digit_of_def hex_digit_def)
  have l: "lower ''0x1'' = ''0x1''" "lower ''0x2'' = ''0x2''"
    by code_simp+
  have 1: "map_sum id (map_option ev_value) (decode_log (example_log\<lparr>data := Some ''-0x10''\<rparr>))
     = Inr (Some (- 16))"
    by (simp add: decode_log_def example_log_def get_or_def n d Let_def)
  have 2: "decode_log (example_log\<lparr>data := Some ''0x''\<rparr>) = Inl ValueError"
    by (simp add: decode_log_def example_log_def get_or_def py_int16_0x)
  have 3: "decode_log (example_log\<lparr>blockNumber := Some ''0x''\<rparr>) = Inl ValueError"
    by (simp add: decode_log_def example_log_def get_or_def py_int16_0x d Let_def)
  have 4: "map_sum id (map_option ev_from)
        (decode_log (example_log\<lparr>topics := [ERC20_SIG, ''0x1'', ''0x2'']\<rparr>))
     = Inr (Some ''0x0x1'')"
    by (simp add: decode_log_def example_log_def get_or_def d Let_def last40_def l)
  from 1 2 3 4 show ?thesis by simp
qed

lemma symbol_hex_static: "length hexstr \<le> 128 \<Longrightarrow> symbol_hex hexstr = Inr []"
  by (simp add: symbol_hex_def rstrip_by_def)

lemma resolve_symbol_static:
  "length (drop 2 r) \<le> 128 \<Longrightarrow> resolve_symbol (Some r) = Inr None \<or> resolve_symbol (Some r) = Inr (Some UNK)"
  by (simp add: resolve_symbol_def symbol_hex_static strip_by_def del: length_drop)

subsection \<open>SymbolResolver\<close>

text \<open>
  Claim C7 says that a reply in the static encoding (at most 128 hexadecimal digits
  after \<^verbatim>\<open>0x\<close>) resolves to the string in its slot.  The code takes the digits from
  position 128 on, which is the empty string for every such reply, so the result is
  always the sentinel \<^verbatim>\<open>UNK\<close>, and the sentinel is what the cache keeps.
\<close>

theorem get_symbol_static_is_UNK:
  assumes "cache token_addr = None" and "call token_addr = Some r" and "length (drop 2 r) \<le> 128"
  shows "get_symbol call cache token_addr = (UNK, cache(token_addr \<mapsto> UNK))"
proof -
  from resolve_symbol_static [OF assms(3)] show ?thesis
  proof
    assume "resolve_symbol (Some r) = Inr None"
    with assms(1,2) show ?thesis by (simp add: get_symbol_def)
  next
    assume "resolve_symbol (Some r) = Inr (Some UNK)"
    with assms(1,2) show ?thesis by (simp add: get_symbol_def)
  qed
qed

text \<open>
  The slot holding \<^verbatim>\<open>MKR\<close> padded with zero bytes resolves to \<^verbatim>\<open>UNK\<close>, although its
  bytes decode to \<^verbatim>\<open>MKR\<close>.
\<close>

theorem get_symbol_static_is_UNK_witness:
  "fst (get_symbol (\<lambda>t. Some MKR_slot) Map.empty ''0x9f8f72aa9304c8b593d555f12ef6589cc3a579a2'') = UNK
   \<and> fromhex (drop 2 MKR_slot) = Inr ([77, 75, 82] @ replicate 29 0)
   \<and> utf8_ignore [77, 75, 82] = map of_char ''MKR''"
proof -
  have "fromhex (drop 2 MKR_slot) = Inr ([77, 75, 82] @ replicate 29 0)"
    by code_simp
  moreover have "utf8_ignore [77, 75, 82] = map of_char ''MKR''"
    by simp
  moreover have "length (drop 2 MKR_slot) \<le> 128"
    by (simp add: MKR_slot_def)
  ultimately show ?thesis
    using get_symbol_static_is_UNK [of Map.empty "''0x9f8f72aa9304c8b593d555f12ef6589cc3a579a2''"
        "\<lambda>t. Some MKR_slot" MKR_slot]
    by simp
qed

text \<open>
  Claim C6 says that decoding is total and that a log failing the checks is skipped.
  In the code a log with three topics and the empty payload \<^verbatim>\<open>0x\<close> makes
  \<^verbatim>\<open>int(data, 16)\<close> raise \<^verbatim>\<open>ValueError\<close>: \<^verbatim>\<open>decode_log\<close> does not return, and the loop
  over the batch ends there, whatever logs follow.
\<close>

theorem decode_error_aborts_batch:
  "topics lg = [ERC20_SIG, t1, t2] \<and> data lg = Some ''0x'' \<longrightarrow>
     decode_log lg = Inl ValueError \<and> process_logs e (lg # logs) s = (Some ValueError, s)"
proof -
  have i: "py_int16 ''0x'' = Inl ValueError"
    by (simp add: py_int16_def strip_sign_def strip_0x_def is_int_space_def is_space_def)
  { assume a: "topics lg = [ERC20_SIG, t1, t2]" "data lg = Some ''0x''"
    then have "decode_log lg = Inl ValueError"
      using i by (simp add: decode_log_def get_or_def)
  }
  then show ?thesis by simp
qed

subsection \<open>LogFetcher and the poll loop\<close>

lemma get_transfer_logs_batch_single:
  assumes "a \<le> b" and "b < a + BATCH_SIZE"
  shows "get_transfer_logs_batch fetch a b =
           ((case fetch a b of Some ls \<Rightarrow> ls | None \<Rightarrow> []), [(a, b)])"
proof -
  have m: "min (a + BATCH_SIZE - 1) b = b" using assms by simp
  have "get_transfer_logs_loop fetch a b [] [] =
          get_transfer_logs_loop fetch (b + 1) b
            (case fetch a b of Some ls \<Rightarrow> [] @ ls | None \<Rightarrow> []) ([] @ [(a, b)])"
    using assms(1) by (subst get_transfer_logs_loop.simps) (simp add: m)
  also have "\<dots> = ((case fetch a b of Some ls \<Rightarrow> [] @ ls | None \<Rightarrow> []), [] @ [(a, b)])"
    by (subst get_transfer_logs_loop.simps) simp
  finally show ?thesis
    by (simp add: get_transfer_logs_batch_def split: option.splits)
qed

lemma process_logs_frame:
  "process_logs e logs s = (r, s') \<Longrightarrow>
     requested s' = requested s \<and> last_block s' = last_block s
     \<and> blocks_behind s' = blocks_behind s \<and> node s' = node s
     \<and> consecutive_errors s' = consecutive_errors s"
proof (induction logs arbitrary: s)
  case Nil
  then show ?case by simp
next
  case (Cons lg logs)
  show ?case
  proof (cases "decode_log lg")
    case (Inl err)
    with Cons.prems show ?thesis by simp
  next
    case (Inr d)
    show ?thesis
    proof (cases d)
      case None
      with Inr Cons show ?thesis by simp
    next
      case (Some decoded)
      show ?thesis
        using Cons.prems Inr Some
        by (auto simp: Let_def split: if_splits prod.splits dest!: Cons.IH)
    qed
  qed
qed

lemma periodic_check_frame:
  "periodic_check e s = (r, s1) \<Longrightarrow> \<exists>n. s1 = s\<lparr>node := n\<rparr>"
  by (auto simp: periodic_check_def split: if_splits sum.splits prod.splits intro: exI [of _ "node s"])

lemma new_blocks_frame:
  assumes nb: "new_blocks e latest s = (r, s')" and lt: "last_block s < latest"
  shows "blocks_behind s' = Some (latest - last_block s)"
    and "consecutive_errors s' = consecutive_errors s"
    and "node s' = node s"
    and "requested s' = requested s @
           [(if MAX_BLOCK_GAP < latest - last_block s then latest - 1 else last_block s + 1, latest)]"
    and "r = None \<Longrightarrow> last_block s' = latest"
    and "r \<noteq> None \<Longrightarrow> last_block s' =
           (if MAX_BLOCK_GAP < latest - last_block s then latest - 2 else last_block s)"
proof -
  define cur where "cur = (if MAX_BLOCK_GAP < latest - last_block s then latest - 2 else last_block s)"
  define s2 where "s2 = s\<lparr>blocks_behind := Some (latest - last_block s), last_block := cur\<rparr>"
  have c: "cur + 1 \<le> latest" "latest < cur + 1 + BATCH_SIZE"
    using lt by (auto simp: cur_def MAX_BLOCK_GAP_def BATCH_SIZE_def)
  obtain logs where g: "get_transfer_logs_batch (get_logs e) (cur + 1) latest = (logs, [(cur + 1, latest)])"
    using get_transfer_logs_batch_single [OF c] by simp
  obtain r4 s4 where p: "process_logs e logs (s2\<lparr>requested := requested s @ [(cur + 1, latest)]\<rparr>) = (r4, s4)"
    by (cases "process_logs e logs (s2\<lparr>requested := requested s @ [(cur + 1, latest)]\<rparr>)")
  have s2eq: "(if MAX_BLOCK_GAP < latest - last_block s
        then s\<lparr>blocks_behind := Some (latest - last_block s)\<rparr>\<lparr>last_block := latest - 2\<rparr>
        else s\<lparr>blocks_behind := Some (latest - last_block s)\<rparr>) = s2"
    by (simp add: s2_def cur_def)
  have l2: "last_block s2 = cur" "requested s2 = requested s" by (simp_all add: s2_def)
  have res: "(r, s') = (case r4 of Some err \<Rightarrow> (Some err, s4) | None \<Rightarrow> (None, s4\<lparr>last_block := latest\<rparr>))"
    using nb unfolding new_blocks_def Let_def s2eq l2 g
    by (simp add: p split: option.splits)
  note f = process_logs_frame [OF p]
  show "blocks_behind s' = Some (latest - last_block s)"
    using res f by (cases r4) (auto simp: s2_def)
  show "consecutive_errors s' = consecutive_errors s"
    using res f by (cases r4) (auto simp: s2_def)
  show "node s' = node s"
    using res f by (cases r4) (auto simp: s2_def)
  show "requested s' = requested s @
           [(if MAX_BLOCK_GAP < latest - last_block s then latest - 1 else last_block s + 1, latest)]"
    using res f by (cases r4) (auto simp: s2_def cur_def)
  show "r = None \<Longrightarrow> last_block s' = latest"
    using res f by (cases r4) (auto simp: s2_def)
  show "r \<noteq> None \<Longrightarrow> last_block s' =
           (if MAX_BLOCK_GAP < latest - last_block s then latest - 2 else last_block s)"
    using res f by (cases r4) (auto simp: s2_def cur_def)
qed

lemma tick_new_blocks:
  assumes pc: "periodic_check e s = (None, s1)"
    and lb: "get_latest_block (latest_reply e) = Inr latest"
    and nz: "latest \<noteq> 0" and lt: "last_block s < latest"
  shows "tick e s =
     (case new_blocks e latest (s1\<lparr>consecutive_errors := 0\<rparr>) of
        (Some err, s3) \<Rightarrow> (Handled err, s3\<lparr>consecutive_errors := 1\<rparr>)
      | (None, s3) \<Rightarrow> (Slept (sleep_of (latest - last_block s)), s3))"
proof -
  from periodic_check_frame [OF pc] obtain n where s1: "s1 = s\<lparr>node := n\<rparr>" ..
  let ?s2 = "s1\<lparr>consecutive_errors := 0\<rparr>"
  have lt2: "last_block ?s2 < latest" using lt by (simp add: s1)
  obtain r s3 where nb: "new_blocks e latest ?s2 = (r, s3)"
    by (cases "new_blocks e latest ?s2")
  note f = new_blocks_frame [OF nb lt2]
  have bb: "blocks_behind s3 = Some (latest - last_block s)" using f(1) by (simp add: s1)
  have ce: "consecutive_errors s3 = 0" using f(2) by simp
  have body: "loop_body e s = (case r of Some err \<Rightarrow> (Exc err, s3) | None \<Rightarrow> dynamic_sleep s3)"
    using lt2 nz by (simp add: loop_body_def pc lb nb split: option.splits)
  show ?thesis
  proof (cases r)
    case None
    then show ?thesis
      by (simp add: tick_def body nb dynamic_sleep_def bb)
  next
    case (Some err)
    then show ?thesis
      by (simp add: tick_def body nb ce)
  qed
qed

lemma tick_no_new_blocks:
  assumes pc: "periodic_check e s = (None, s1)"
    and lb: "get_latest_block (latest_reply e) = Inr latest"
    and nz: "latest \<noteq> 0" and le: "latest \<le> last_block s"
  shows "tick e s =
     (case blocks_behind s of
        None \<Rightarrow> (Handled UnboundLocalError, s1\<lparr>consecutive_errors := 1\<rparr>)
      | Some behind \<Rightarrow> (Slept (sleep_of behind), s1\<lparr>consecutive_errors := 0\<rparr>))"
proof -
  from periodic_check_frame [OF pc] obtain n where s1: "s1 = s\<lparr>node := n\<rparr>" ..
  have "loop_body e s = dynamic_sleep (s1\<lparr>consecutive_errors := 0\<rparr>)"
    using nz le by (simp add: loop_body_def pc lb s1)
  then show ?thesis
    by (cases "blocks_behind s") (simp_all add: tick_def dynamic_sleep_def s1)
qed

lemma periodic_check_not_due: "\<not> recheck_due e \<Longrightarrow> periodic_check e s = (None, s)"
  by (simp add: periodic_check_def)

lemma latest_0x1b4: "get_latest_block (Some ''0x1b4'') = Inr 436"
proof -
  have "hex_word ''1b4''" by (simp add: hex_word_def hex_digit_def)
  from py_int16_hex_word [OF this] show ?thesis
    by (simp add: get_latest_block_def digit_of_def hex_digit_def)
qed

lemma tick_env_0x1b4:
  "tick (env_with (Some ''0x1b4'') logs) s =
     (if last_block s < 436 then
        (case new_blocks (env_with (Some ''0x1b4'') logs) 436 (s\<lparr>consecutive_errors := 0\<rparr>) of
           (Some err, s3) \<Rightarrow> (Handled err, s3\<lparr>consecutive_errors := 1\<rparr>)
         | (None, s3) \<Rightarrow> (Slept (sleep_of (436 - last_block s)), s3))
      else
        (case blocks_behind s of
           None \<Rightarrow> (Handled UnboundLocalError, s\<lparr>consecutive_errors := 1\<rparr>)
         | Some behind \<Rightarrow> (Slept (sleep_of behind), s\<lparr>consecutive_errors := 0\<rparr>)))"
proof -
  let ?e = "env_with (Some ''0x1b4'') logs"
  have pc: "periodic_check ?e s = (None, s)"
    by (simp add: periodic_check_not_due env_with_def)
  have lb: "get_latest_block (latest_reply ?e) = Inr 436"
    by (simp add: env_with_def latest_0x1b4)
  show ?thesis
    using tick_new_blocks [OF pc lb] tick_no_new_blocks [OF pc lb] by simp
qed

lemma new_blocks_no_logs:
  "last_block s < latest \<Longrightarrow>
   new_blocks (env_with reply []) latest s =
     (None, s\<lparr>blocks_behind := Some (latest - last_block s), last_block := latest,
              requested := requested s @
                [(if MAX_BLOCK_GAP < latest - last_block s then latest - 1 else last_block s + 1,
                  latest)]\<rparr>)"
  by (simp add: new_blocks_def Let_def get_transfer_logs_batch_single BATCH_SIZE_def
      MAX_BLOCK_GAP_def env_with_def)

subsection \<open>Queued payloads\<close>

lemma decode_log_addresses:
  "decode_log lg = Inr (Some d) \<Longrightarrow>
     ev_from d = ''0x'' @ lower (last40 (topics lg ! 1))
     \<and> ev_to d = ''0x'' @ lower (last40 (topics lg ! 2))"
  by (auto simp: decode_log_def Let_def split: if_splits sum.splits)

lemma process_logs_payloads:
  "process_logs e logs s = (r, s') \<Longrightarrow>
     \<exists>new. zapier_queue s' = zapier_queue s @ new \<and> (\<forall>p \<in> set new. relevant_payload p)"
proof (induction logs arbitrary: s)
  case Nil
  then show ?case by simp
next
  case (Cons lg logs)
  show ?case
  proof (cases "decode_log lg")
    case (Inl err)
    with Cons.prems show ?thesis by simp
  next
    case (Inr d)
    show ?thesis
    proof (cases d)
      case None
      with Inr Cons show ?thesis by simp
    next
      case (Some decoded)
      note dl = Inr [unfolded Some]
      note ad = decode_log_addresses [OF dl]
      show ?thesis
      proof (cases "(WATCH_ADDRESS \<noteq> ev_from decoded \<and> WATCH_ADDRESS \<noteq> ev_to decoded)
                     \<or> ev_txHash decoded \<in> set (processed_txs s)")
        case True
        with Cons.prems dl have "process_logs e logs s = (r, s')"
          by (auto split: if_splits)
        from Cons.IH [OF this] show ?thesis .
      next
        case False
        obtain symb cache where gs:
          "get_symbol (symbol_call e) (symbol_cache s) (ev_token decoded) = (symb, cache)"
          by (cases "get_symbol (symbol_call e) (symbol_cache s) (ev_token decoded)")
        show ?thesis
        proof (cases "float_overflows (ev_value decoded)")
          case True
          with Cons.prems dl False gs show ?thesis by (auto simp: Let_def)
        next
          case nov: False
          define p where "p = \<lparr>p_direction = (if WATCH_ADDRESS = ev_to decoded then BUY else SELL),
              p_symbol = symb, p_value = ev_value decoded, p_txHash = ev_txHash decoded,
              p_block = ev_blockNumber decoded, p_timestamp = now e, p_from = ev_from decoded,
              p_to = ev_to decoded, p_token = ev_token decoded\<rparr>"
          define s2 where "s2 = s\<lparr>processed_txs := deque_append (processed_txs s) (ev_txHash decoded),
              symbol_cache := cache, zapier_queue := zapier_queue s @ [p]\<rparr>"
          have "process_logs e logs s2 = (r, s')"
            using Cons.prems dl False gs nov
            by (auto simp: Let_def s2_def p_def send_to_zapier_def)
          from Cons.IH [OF this] obtain new where
            n: "zapier_queue s' = zapier_queue s2 @ new" "\<forall>p \<in> set new. relevant_payload p"
            by blast
          have rp: "relevant_payload p"
            unfolding relevant_payload_def using False ad dl
            by (auto simp: p_def intro!: exI [of _ lg] exI [of _ decoded])
          have "zapier_queue s' = zapier_queue s @ (p # new)"
            using n(1) by (simp add: s2_def)
          with n(2) rp show ?thesis by (intro exI [of _ "p # new"]) simp
        qed
      qed
    qed
  qed
qed

lemma new_blocks_payloads:
  assumes "new_blocks e latest s = (r, s')"
  shows "\<exists>new. zapier_queue s' = zapier_queue s @ new \<and> (\<forall>p \<in> set new. relevant_payload p)"
proof -
  obtain s3 logs r4 s4 where p: "process_logs e logs s3 = (r4, s4)"
    and q: "zapier_queue s3 = zapier_queue s"
    and r: "zapier_queue s' = zapier_queue s4"
    using assms unfolding new_blocks_def Let_def
    by (auto split: prod.splits option.splits if_splits)
  from process_logs_payloads [OF p] q r show ?thesis by simp
qed

lemma loop_body_payloads:
  assumes "loop_body e s = (fl, s')"
  shows "\<exists>new. zapier_queue s' = zapier_queue s @ new \<and> (\<forall>p \<in> set new. relevant_payload p)"
proof -
  obtain r1 s1 where pc: "periodic_check e s = (r1, s1)" by (cases "periodic_check e s")
  from periodic_check_frame [OF pc] have q1: "zapier_queue s1 = zapier_queue s" by auto
  have z: "\<And>f t. zero_height e s1 = (f, t) \<Longrightarrow> zapier_queue t = zapier_queue s1"
    by (auto simp: zero_height_def Let_def split: if_splits sum.splits prod.splits)
  have d: "\<And>f t u. dynamic_sleep u = (f, t) \<Longrightarrow> t = u"
    by (auto simp: dynamic_sleep_def split: option.splits)
  have nb: "\<And>latest r t. new_blocks e latest (s1\<lparr>consecutive_errors := 0\<rparr>) = (r, t) \<Longrightarrow>
     \<exists>new. zapier_queue t = zapier_queue s @ new \<and> (\<forall>p \<in> set new. relevant_payload p)"
    using new_blocks_payloads q1 by fastforce
  show ?thesis
  proof (cases r1)
    case (Some err)
    with assms pc q1 show ?thesis by (simp add: loop_body_def)
  next
    case None
    show ?thesis
    proof (cases "get_latest_block (latest_reply e)")
      case (Inl err)
      with assms pc None q1 show ?thesis by (simp add: loop_body_def)
    next
      case (Inr latest)
      show ?thesis
      proof (cases "latest = 0")
        case True
        with assms pc None Inr have "zero_height e s1 = (fl, s')" by (simp add: loop_body_def)
        from z [OF this] q1 show ?thesis by simp
      next
        case nz: False
        show ?thesis
        proof (cases "latest > last_block s1")
          case False
          with assms pc None Inr nz
          have "dynamic_sleep (s1\<lparr>consecutive_errors := 0\<rparr>) = (fl, s')"
            by (simp add: loop_body_def)
          from d [OF this] q1 show ?thesis by simp
        next
          case True
          obtain r t where n: "new_blocks e latest (s1\<lparr>consecutive_errors := 0\<rparr>) = (r, t)"
            by (cases "new_blocks e latest (s1\<lparr>consecutive_errors := 0\<rparr>)")
          have "s' = t"
            using assms pc None Inr nz True n
            by (cases r) (auto simp: loop_body_def dest: d)
          with nb [OF n] show ?thesis by simp
        qed
      qed
    qed
  qed
qed

text \<open>
  Claim C10.  Every payload that an iteration of the loop appends to the delivery queue
  has the watched address as its \<open>from\<close> or its \<open>to\<close> (both lower-cased by the decoder,
  as the watched address is), and its direction is \<open>BUY\<close> exactly when the watched
  address is its \<open>to\<close> and \<open>SELL\<close> otherwise.
\<close>

theorem queued_payload_direction:
  "tick e s = (out, s') \<Longrightarrow>
     \<exists>new. zapier_queue s' = zapier_queue s @ new \<and> (\<forall>p \<in> set new. relevant_payload p)"
proof -
  assume t: "tick e s = (out, s')"
  obtain fl s1 where lb: "loop_body e s = (fl, s1)" by (cases "loop_body e s")
  have "zapier_queue s' = zapier_queue s1"
    using t lb by (cases fl) (auto simp: tick_def Let_def split: if_splits sum.splits prod.splits)
  with loop_body_payloads [OF lb] show ?thesis by simp
qed

lemma WATCH_ADDRESS_eq: "WATCH_ADDRESS = ''0x07c249fa3902fd243ad0fa58047be8a3262b7104''"
  by code_simp

lemma decode_example_log:
  "decode_log example_log =
     Inr (Some \<lparr>ev_from = ''0xabcdef0123456789abcdef0123456789abcdef01'',
                ev_to = ''0x07c249fa3902fd243ad0fa58047be8a3262b7104'',
                ev_value = 1000000000000000000,
                ev_token = ''0xb8ce59fc3717ada4c02eadf9682a9e934f625ebb'',
                ev_txHash = ''0x5c504ed432cb51138bcf09aa5e8a410dd4a1e204ef84bfed1be16dfba1b22060'',
                ev_blockNumber = 436\<rparr>)"
proof -
  have h: "hex_word ''0000000000000000000000000000000000000000000000000de0b6b3a7640000''"
    "hex_word ''1b4''"
    by (simp_all add: hex_word_def hex_digit_def)
  have v: "int (spec_be_uint (spec_payload_bytes
             ''0000000000000000000000000000000000000000000000000de0b6b3a7640000'')) = 1000000000000000000"
    "int (spec_be_uint (spec_payload_bytes ''1b4'')) = 436"
    by (simp_all add: spec_be_uint_def spec_payload_bytes_def digit_of_def hex_digit_def)
  have lw: "lower ''AbCdEf0123456789aBcDeF0123456789abcdef01''
              = ''abcdef0123456789abcdef0123456789abcdef01''"
    "lower ''07c249fa3902fd243ad0fa58047bE8A3262B7104''
              = ''07c249fa3902fd243ad0fa58047be8a3262b7104''"
    "lower ''0xB8CE59FC3717ada4C02eaDF9682A9e934F625ebb'' = ''0xb8ce59fc3717ada4c02eadf9682a9e934f625ebb''"
    by code_simp+
  show ?thesis
    using decode_log_well_formed [of example_log
        "''0x000000000000000000000000AbCdEf0123456789aBcDeF0123456789abcdef01''"
        "''0x00000000000000000000000007c249fa3902fd243ad0fa58047bE8A3262B7104''"
        "[]" "''0000000000000000000000000000000000000000000000000de0b6b3a7640000''" "''1b4''"]
    by (simp add: example_log_def get_or_def h v lw)
qed

lemma decode_empty_payload_log: "decode_log empty_payload_log = Inl ValueError"
  by (simp add: decode_log_def empty_payload_log_def example_log_def get_or_def py_int16_0x)

lemma get_symbol_no_reply:
  "cache token = None \<Longrightarrow> get_symbol (\<lambda>t. None) cache token = (UNK, cache(token \<mapsto> UNK))"
  by (simp add: get_symbol_def resolve_symbol_def)

lemma new_blocks_env_with:
  "last_block s < latest \<Longrightarrow> latest - last_block s \<le> MAX_BLOCK_GAP \<Longrightarrow>
   new_blocks (env_with reply logs) latest s =
     (case process_logs (env_with reply logs) logs
             (s\<lparr>blocks_behind := Some (latest - last_block s),
                requested := requested s @ [(last_block s + 1, latest)]\<rparr>) of
        (Some err, s4) \<Rightarrow> (Some err, s4)
      | (None, s4) \<Rightarrow> (None, s4\<lparr>last_block := latest\<rparr>))"
proof -
  assume a: "last_block s < latest" "latest - last_block s \<le> MAX_BLOCK_GAP"
  have g: "get_transfer_logs_batch (get_logs (env_with reply logs)) (last_block s + 1) latest
             = (logs, [(last_block s + 1, latest)])"
    using a by (subst get_transfer_logs_batch_single)
      (simp_all add: BATCH_SIZE_def MAX_BLOCK_GAP_def env_with_def)
  show ?thesis
    using a by (simp add: new_blocks_def Let_def g)
qed


lemma tick_example_log:
  "tick (env_with (Some ''0x1b4'') [example_log]) (watcher_at 435) =
     (Slept Sleep_jitter, (watcher_at 436)
        \<lparr>blocks_behind := Some 1, requested := [(436, 436)],
         processed_txs := [''0x5c504ed432cb51138bcf09aa5e8a410dd4a1e204ef84bfed1be16dfba1b22060''],
         symbol_cache := [''0xb8ce59fc3717ada4c02eadf9682a9e934f625ebb'' \<mapsto> UNK],
         zapier_queue := [example_payload]\<rparr>)"
proof -
  have fo: "\<not> float_overflows 1000000000000000000" by (simp add: float_overflows_def)
  have gs: "get_symbol (\<lambda>t. None) Map.empty ''0xb8ce59fc3717ada4c02eadf9682a9e934f625ebb''
     = (UNK, [''0xb8ce59fc3717ada4c02eadf9682a9e934f625ebb'' \<mapsto> UNK])"
    by (simp add: get_symbol_no_reply)
  have n: "new_blocks (env_with (Some ''0x1b4'') [example_log]) 436
             ((watcher_at 435)\<lparr>consecutive_errors := 0\<rparr>)
           = (None, (watcher_at 436)
                \<lparr>blocks_behind := Some 1, requested := [(436, 436)],
                 processed_txs := [''0x5c504ed432cb51138bcf09aa5e8a410dd4a1e204ef84bfed1be16dfba1b22060''],
                 symbol_cache := [''0xb8ce59fc3717ada4c02eadf9682a9e934f625ebb'' \<mapsto> UNK],
                 zapier_queue := [example_payload]\<rparr>)"
    by (subst new_blocks_env_with)
       (simp_all add: MAX_BLOCK_GAP_def watcher_at_def decode_example_log WATCH_ADDRESS_eq fo gs
          env_with_def deque_append_def send_to_zapier_def example_payload_def Let_def)
  show ?thesis
    by (simp add: tick_env_0x1b4 n sleep_of_def) (simp add: watcher_at_def)
qed

lemma tick_empty_payload_log:
  "tick (env_with (Some ''0x1b4'') [empty_payload_log, example_log]) (watcher_at 435) =
     (Handled ValueError, (watcher_at 435)
        \<lparr>consecutive_errors := 1, blocks_behind := Some 1, requested := [(436, 436)]\<rparr>)"
proof -
  have n: "new_blocks (env_with (Some ''0x1b4'') [empty_payload_log, example_log]) 436
             ((watcher_at 435)\<lparr>consecutive_errors := 0\<rparr>)
           = (Some ValueError, (watcher_at 435)\<lparr>blocks_behind := Some 1, requested := [(436, 436)]\<rparr>)"
    by (subst new_blocks_env_with)
       (simp_all add: MAX_BLOCK_GAP_def decode_empty_payload_log watcher_at_def)
  show ?thesis
    by (simp add: tick_env_0x1b4 n) (simp add: watcher_at_def)
qed

theorem queued_payload_direction_witness:
  "zapier_queue (snd (tick (env_with (Some ''0x1b4'') [example_log]) (watcher_at 435)))
     = [example_payload]
   \<and> relevant_payload example_payload"
  using queued_payload_direction [of "env_with (Some ''0x1b4'') [example_log]" "watcher_at 435"
      "Slept Sleep_jitter" "snd (tick (env_with (Some ''0x1b4'') [example_log]) (watcher_at 435))"]
  by (simp add: tick_example_log) (simp add: watcher_at_def)

text \<open>
  The failing input of claim C6 in a whole iteration: the batch holds the log with the
  empty payload and then the Transfer log of the example.  The iteration ends in the
  handler, nothing is queued and the cursor stays; with the second log alone its
  payload is queued.
\<close>

theorem decode_error_aborts_batch_witness:
  "decode_log empty_payload_log = Inl ValueError
   \<and> process_logs (env_with (Some ''0x1b4'') []) [empty_payload_log, example_log] (watcher_at 435)
       = (Some ValueError, watcher_at 435)
   \<and> fst (tick (env_with (Some ''0x1b4'') [empty_payload_log, example_log]) (watcher_at 435))
       = Handled ValueError
   \<and> zapier_queue (snd (tick (env_with (Some ''0x1b4'') [empty_payload_log, example_log])
         (watcher_at 435))) = []
   \<and> last_block (snd (tick (env_with (Some ''0x1b4'') [empty_payload_log, example_log])
         (watcher_at 435))) = 435
   \<and> zapier_queue (snd (tick (env_with (Some ''0x1b4'') [example_log]) (watcher_at 435)))
       = [example_payload]"
  using decode_error_aborts_batch [of empty_payload_log
      "''0x000000000000000000000000AbCdEf0123456789aBcDeF0123456789abcdef01''"
      "''0x00000000000000000000000007c249fa3902fd243ad0fa58047bE8A3262B7104''"
      "env_with (Some ''0x1b4'') []" "[example_log]" "watcher_at 435"]
  by (simp add: tick_example_log tick_empty_payload_log)
     (simp add: watcher_at_def empty_payload_log_def example_log_def)

subsection \<open>The cursor and the sleep\<close>

lemma get_latest_block_hex:
  "hex_word ds \<Longrightarrow>
   get_latest_block (Some (''0x'' @ ds)) = Inr (int (spec_be_uint (spec_payload_bytes ds)))"
  using py_int16_be_uint [of ds] by (simp add: get_latest_block_def)

lemma has_host_part_a: "has_host_part ''http://a/x''"
  by (simp add: has_host_part_def)

lemma start_at_435: "start [(''http://a/x'', Some ''0x1b3'', 0)] = Inr (watcher_at 435)"
proof -
  have "hex_word ''1b3''" by (simp add: hex_word_def hex_digit_def)
  from get_latest_block_hex [OF this]
  have "get_latest_block (Some ''0x1b3'') = Inr 435"
    by (simp add: spec_be_uint_def spec_payload_bytes_def digit_of_def hex_digit_def)
  then show ?thesis
    by (simp add: start_def get_best_rpc_def has_host_part_a watcher_at_def)
qed

lemma start_at_436: "start [(''http://a/x'', Some ''0x1b4'', 0)] = Inr (watcher_at 436)"
  by (simp add: start_def get_best_rpc_def has_host_part_a watcher_at_def latest_0x1b4)

lemma start_at_100: "start [(''http://a/x'', Some ''0x64'', 0)] = Inr (watcher_at 100)"
proof -
  have "hex_word ''64''" by (simp add: hex_word_def hex_digit_def)
  from get_latest_block_hex [OF this]
  have "get_latest_block (Some ''0x64'') = Inr 100"
    by (simp add: spec_be_uint_def spec_payload_bytes_def digit_of_def hex_digit_def)
  then show ?thesis
    by (simp add: start_def get_best_rpc_def has_host_part_a watcher_at_def)
qed

lemma zero_height_frame:
  "zero_height e s = (fl, s') \<Longrightarrow>
     last_block s' = last_block s \<and> blocks_behind s' = blocks_behind s"
  by (auto simp: zero_height_def Let_def split: if_splits sum.splits prod.splits)

lemma dynamic_sleep_frame: "dynamic_sleep s = (fl, s') \<Longrightarrow> s' = s"
  by (auto simp: dynamic_sleep_def split: option.splits)

lemma tick_frame:
  "loop_body e s = (fl, s1) \<Longrightarrow>
     blocks_behind (snd (tick e s)) = blocks_behind s1
     \<and> (last_block (snd (tick e s)) = last_block s1
         \<or> (\<exists>err n. fl = Exc err \<and> 5 \<le> consecutive_errors s1
                \<and> get_best_rpc (probes_handler e) = Inr (n, last_block (snd (tick e s)))))"
  by (cases fl) (auto simp: tick_def Let_def split: if_splits sum.splits prod.splits)

lemma loop_body_cursor:
  assumes "loop_body e s = (fl, s')"
  shows "last_block s \<le> last_block s'
     \<and> (blocks_behind s' = blocks_behind s
         \<or> (\<exists>latest. get_latest_block (latest_reply e) = Inr latest \<and> latest \<noteq> 0
                \<and> last_block s < latest \<and> blocks_behind s' = Some (latest - last_block s)))"
proof -
  obtain r1 s1 where pc: "periodic_check e s = (r1, s1)" by (cases "periodic_check e s")
  from periodic_check_frame [OF pc]
  have q1: "last_block s1 = last_block s" "blocks_behind s1 = blocks_behind s" by auto
  show ?thesis
  proof (cases r1)
    case (Some err)
    with assms pc q1 show ?thesis by (simp add: loop_body_def)
  next
    case None
    show ?thesis
    proof (cases "get_latest_block (latest_reply e)")
      case (Inl err)
      with assms pc None q1 show ?thesis by (simp add: loop_body_def)
    next
      case (Inr latest)
      show ?thesis
      proof (cases "latest = 0")
        case True
        with assms pc None Inr have "zero_height e s1 = (fl, s')" by (simp add: loop_body_def)
        from zero_height_frame [OF this] q1 show ?thesis by simp
      next
        case nz: False
        show ?thesis
        proof (cases "latest > last_block s1")
          case False
          with assms pc None Inr nz
          have "dynamic_sleep (s1\<lparr>consecutive_errors := 0\<rparr>) = (fl, s')"
            by (simp add: loop_body_def)
          from dynamic_sleep_frame [OF this] q1 show ?thesis by simp
        next
          case True
          let ?s2 = "s1\<lparr>consecutive_errors := 0\<rparr>"
          obtain r t where n: "new_blocks e latest ?s2 = (r, t)"
            by (cases "new_blocks e latest ?s2")
          have lt2: "last_block ?s2 < latest" using True by simp
          note f = new_blocks_frame [OF n lt2]
          have st: "s' = t"
            using assms pc None Inr nz True n
            by (cases r) (auto simp: loop_body_def dest: dynamic_sleep_frame)
          have "last_block s \<le> last_block t"
          proof (cases r)
            case None
            from f(5) [OF this] True q1 show ?thesis by simp
          next
            case (Some err)
            then have "r \<noteq> None" by simp
            from f(6) [OF this] True q1 show ?thesis by (simp add: MAX_BLOCK_GAP_def)
          qed
          moreover have "blocks_behind t = Some (latest - last_block s)"
            using f(1) q1 by simp
          ultimately show ?thesis using st Inr nz True q1 by auto
        qed
      qed
    qed
  qed
qed

text \<open>
  Claim C9, as amended.  On a tick without new blocks (the height query answered, the
  height is not above the cursor) the sleep is computed from \<open>blocks_behind\<close>: while
  the variable is unbound the computation raises \<^verbatim>\<open>UnboundLocalError\<close>, which the
  handler of the loop catches, and otherwise it uses the value the variable holds,
  which the tick leaves as it is.  Only a tick that takes the new-blocks branch assigns
  the variable, and it is unbound at the start.
\<close>

theorem sleep_reads_blocks_behind:
  "(periodic_check e s = (None, s1) \<and> get_latest_block (latest_reply e) = Inr latest
      \<and> latest \<noteq> 0 \<and> latest \<le> last_block s \<longrightarrow>
      tick e s =
        (case blocks_behind s of
           None \<Rightarrow> (Handled UnboundLocalError, s1\<lparr>consecutive_errors := 1\<rparr>)
         | Some behind \<Rightarrow> (Slept (sleep_of behind), s1\<lparr>consecutive_errors := 0\<rparr>))
      \<and> blocks_behind (snd (tick e s)) = blocks_behind s)
   \<and> (blocks_behind (snd (tick e s)) = blocks_behind s
       \<or> (\<exists>h. get_latest_block (latest_reply e) = Inr h \<and> h \<noteq> 0 \<and> last_block s < h
              \<and> blocks_behind (snd (tick e s)) = Some (h - last_block s)))
   \<and> (start probes = Inr s0 \<longrightarrow> blocks_behind s0 = None)"
proof -
  obtain fl s2 where lb: "loop_body e s = (fl, s2)" by (cases "loop_body e s")
  have a: "blocks_behind (snd (tick e s)) = blocks_behind s
       \<or> (\<exists>h. get_latest_block (latest_reply e) = Inr h \<and> h \<noteq> 0 \<and> last_block s < h
              \<and> blocks_behind (snd (tick e s)) = Some (h - last_block s))"
    using loop_body_cursor [OF lb] tick_frame [OF lb] by auto
  have b: "start probes = Inr s0 \<longrightarrow> blocks_behind s0 = None"
    by (auto simp: start_def split: sum.splits)
  { assume h: "periodic_check e s = (None, s1)" "get_latest_block (latest_reply e) = Inr latest"
      "latest \<noteq> 0" "latest \<le> last_block s"
    from periodic_check_frame [OF h(1)] have "blocks_behind s1 = blocks_behind s" by auto
    with tick_no_new_blocks [OF h]
    have "tick e s =
        (case blocks_behind s of
           None \<Rightarrow> (Handled UnboundLocalError, s1\<lparr>consecutive_errors := 1\<rparr>)
         | Some behind \<Rightarrow> (Slept (sleep_of behind), s1\<lparr>consecutive_errors := 0\<rparr>))
      \<and> blocks_behind (snd (tick e s)) = blocks_behind s"
      by (cases "blocks_behind s") simp_all
  }
  with a b show ?thesis by blast
qed

theorem sleep_reads_blocks_behind_witness:
  "tick (env_with (Some ''0x1b4'') []) (watcher_at 436)
     = (Handled UnboundLocalError, (watcher_at 436)\<lparr>consecutive_errors := 1\<rparr>)
   \<and> tick (env_with (Some ''0x1b4'') []) ((watcher_at 436)\<lparr>blocks_behind := Some 7\<rparr>)
     = (Slept Sleep_fast, (watcher_at 436)\<lparr>blocks_behind := Some 7\<rparr>)
   \<and> blocks_behind (snd (tick (env_with (Some ''0x1b4'') []) (watcher_at 435))) = Some 1"
proof -
  let ?e = "env_with (Some ''0x1b4'') []"
  have pc: "\<And>s. periodic_check ?e s = (None, s)"
    by (simp add: periodic_check_not_due env_with_def)
  have lb: "get_latest_block (latest_reply ?e) = Inr 436"
    by (simp add: env_with_def latest_0x1b4)
  have c: "blocks_behind (snd (tick ?e (watcher_at 435))) \<noteq> blocks_behind (watcher_at 435)"
    by (simp add: tick_env_0x1b4 new_blocks_no_logs watcher_at_def)
  show ?thesis
    using sleep_reads_blocks_behind [of ?e "watcher_at 436" "watcher_at 436" 436]
      sleep_reads_blocks_behind [of ?e "(watcher_at 436)\<lparr>blocks_behind := Some 7\<rparr>"
        "(watcher_at 436)\<lparr>blocks_behind := Some 7\<rparr>" 436]
      sleep_reads_blocks_behind [of ?e "watcher_at 435"] c
    by (simp add: pc lb sleep_of_def) (auto simp: watcher_at_def)
qed

text \<open>
  Claim C9 as stated fails in both directions.  From the start at height 435, the first
  tick sees block 436 and the second sees no new block: this first tick without new
  blocks computes its sleep (from the stale value 1).  From the start at height 436,
  two ticks see no new block: the second of them still raises.
\<close>

theorem first_quiet_tick_counterexample:
  "start [(''http://a/x'', Some ''0x1b3'', 0)] = Inr (watcher_at 435)
   \<and> fst (run [env_with (Some ''0x1b4'') [], env_with (Some ''0x1b4'') []] (watcher_at 435))
       = [Slept Sleep_jitter, Slept Sleep_jitter]
   \<and> start [(''http://a/x'', Some ''0x1b4'', 0)] = Inr (watcher_at 436)
   \<and> fst (run [env_with (Some ''0x1b4'') [], env_with (Some ''0x1b4'') []] (watcher_at 436))
       = [Handled UnboundLocalError, Handled UnboundLocalError]"
  by (simp add: start_at_435 start_at_436 tick_env_0x1b4 new_blocks_no_logs sleep_of_def
      MAX_BLOCK_GAP_def watcher_at_def)

lemma tick_bad_reply:
  "tick (env_with (Some ''0x'') logs) s =
     (Handled ValueError,
      if 5 \<le> consecutive_errors s
      then s\<lparr>node := ''http://a/x'', last_block := 0, consecutive_errors := 0\<rparr>
      else s\<lparr>consecutive_errors := consecutive_errors s + 1\<rparr>)"
proof -
  let ?e = "env_with (Some ''0x'') logs"
  have b: "loop_body ?e s = (Exc ValueError, s)"
    by (simp add: loop_body_def periodic_check_not_due env_with_def get_latest_block_def
        py_int16_0x)
  have g: "get_best_rpc (probes_handler ?e) = Inr (''http://a/x'', 0)"
    by (simp add: env_with_def get_best_rpc_def get_latest_block_def)
  show ?thesis
    by (simp add: tick_def b g Let_def)
qed

text \<open>
  Claim C1 says that no tick lowers \<open>last_block\<close>.  The handler of the loop, once more
  than five errors in a row have been counted, assigns to \<open>last_block\<close> the height that
  \<^verbatim>\<open>get_best_rpc\<close> returns, whatever the cursor was: 0 when no endpoint answers.  (The
  calls at lines 215 and 225 discard that height.)
\<close>

theorem handler_overwrites_last_block:
  "loop_body e s = (Exc err, s1) \<Longrightarrow> 5 \<le> consecutive_errors s1 \<Longrightarrow>
   get_best_rpc (probes_handler e) = Inr (n, h) \<Longrightarrow>
   tick e s = (Handled err, s1\<lparr>node := n, last_block := h, consecutive_errors := 0\<rparr>)"
  by (simp add: tick_def Let_def)

text \<open>
  From the start at height 100, five ticks whose height reply is the malformed \<^verbatim>\<open>0x\<close>
  count five errors; the sixth sets the cursor to 0.
\<close>

theorem handler_overwrites_last_block_witness:
  "start [(''http://a/x'', Some ''0x64'', 0)] = Inr (watcher_at 100)
   \<and> run [env_with (Some ''0x'') [], env_with (Some ''0x'') [], env_with (Some ''0x'') [],
          env_with (Some ''0x'') [], env_with (Some ''0x'') []] (watcher_at 100)
       = ([Handled ValueError, Handled ValueError, Handled ValueError, Handled ValueError,
           Handled ValueError], (watcher_at 100)\<lparr>consecutive_errors := 5\<rparr>)
   \<and> last_block ((watcher_at 100)\<lparr>consecutive_errors := 5\<rparr>) = 100
   \<and> last_block (snd (tick (env_with (Some ''0x'') [])
                         ((watcher_at 100)\<lparr>consecutive_errors := 5\<rparr>))) = 0"
proof -
  let ?e = "env_with (Some ''0x'') []"
  let ?s = "(watcher_at 100)\<lparr>consecutive_errors := 5\<rparr>"
  have b: "loop_body ?e ?s = (Exc ValueError, ?s)"
    by (simp add: loop_body_def periodic_check_not_due env_with_def get_latest_block_def
        py_int16_0x)
  have g: "get_best_rpc (probes_handler ?e) = Inr (''http://a/x'', 0)"
    by (simp add: env_with_def get_best_rpc_def get_latest_block_def)
  have c: "5 \<le> consecutive_errors ?s" by simp
  have r: "run [?e, ?e, ?e, ?e, ?e] (watcher_at 100)
       = ([Handled ValueError, Handled ValueError, Handled ValueError, Handled ValueError,
           Handled ValueError], ?s)"
    by (simp add: tick_bad_reply) (simp add: watcher_at_def)
  show ?thesis
    using handler_overwrites_last_block [OF b c g] r
    by (simp add: start_at_100) (simp add: watcher_at_def)
qed

lemma last_block_decreases_only_in_handler:
  assumes "tick e s = (out, s')" and "last_block s' < last_block s"
  shows "\<exists>err s1 n. loop_body e s = (Exc err, s1) \<and> 5 \<le> consecutive_errors s1
           \<and> get_best_rpc (probes_handler e) = Inr (n, last_block s')"
proof -
  obtain fl s1 where lb: "loop_body e s = (fl, s1)" by (cases "loop_body e s")
  from loop_body_cursor [OF lb] have "last_block s \<le> last_block s1" by simp
  with tick_frame [OF lb] assms lb show ?thesis by auto
qed

text \<open>
  Every range an iteration requests starts above the cursor the iteration began with:
  a block at or below the cursor is requested again only after the handler has lowered
  the cursor.
\<close>

lemma requests_above_cursor:
  assumes "tick e s = (out, s')"
  shows "\<exists>new. requested s' = requested s @ new \<and> (\<forall>(a, b) \<in> set new. last_block s < a)"
proof -
  obtain fl s2 where lb: "loop_body e s = (fl, s2)" by (cases "loop_body e s")
  have t: "requested s' = requested s2"
    using assms lb by (cases fl) (auto simp: tick_def Let_def split: if_splits sum.splits prod.splits)
  obtain r1 s1 where pc: "periodic_check e s = (r1, s1)" by (cases "periodic_check e s")
  from periodic_check_frame [OF pc]
  have q1: "last_block s1 = last_block s" "requested s1 = requested s" by auto
  have z: "\<And>f u. zero_height e s1 = (f, u) \<Longrightarrow> requested u = requested s1"
    by (auto simp: zero_height_def Let_def split: if_splits sum.splits prod.splits)
  have "\<exists>new. requested s2 = requested s @ new \<and> (\<forall>(a, b) \<in> set new. last_block s < a)"
  proof (cases r1)
    case (Some err)
    with lb pc q1 show ?thesis by (simp add: loop_body_def)
  next
    case None
    show ?thesis
    proof (cases "get_latest_block (latest_reply e)")
      case (Inl err)
      with lb pc None q1 show ?thesis by (simp add: loop_body_def)
    next
      case (Inr latest)
      show ?thesis
      proof (cases "latest = 0")
        case True
        with lb pc None Inr have "zero_height e s1 = (fl, s2)" by (simp add: loop_body_def)
        from z [OF this] q1 show ?thesis by simp
      next
        case nz: False
        show ?thesis
        proof (cases "latest > last_block s1")
          case False
          with lb pc None Inr nz
          have "dynamic_sleep (s1\<lparr>consecutive_errors := 0\<rparr>) = (fl, s2)"
            by (simp add: loop_body_def)
          from dynamic_sleep_frame [OF this] q1 show ?thesis by simp
        next
          case True
          let ?s = "s1\<lparr>consecutive_errors := 0\<rparr>"
          obtain r u where n: "new_blocks e latest ?s = (r, u)"
            by (cases "new_blocks e latest ?s")
          have lt2: "last_block ?s < latest" using True by simp
          note f = new_blocks_frame [OF n lt2]
          have "s2 = u"
            using lb pc None Inr nz True n
            by (cases r) (auto simp: loop_body_def dest: dynamic_sleep_frame)
          with f(4) True q1 show ?thesis by (auto simp: MAX_BLOCK_GAP_def)
        qed
      qed
    qed
  qed
  with t show ?thesis by simp
qed

lemma run_requests_above_cursor:
  "cursor_kept es s \<Longrightarrow>
   \<exists>new. requested (snd (run es s)) = requested s @ new \<and> (\<forall>(a, b) \<in> set new. last_block s < a)"
proof (induction es arbitrary: s)
  case Nil
  then show ?case by simp
next
  case (Cons e es)
  obtain out s1 where t: "tick e s = (out, s1)" by (cases "tick e s")
  from requests_above_cursor [OF t] obtain new1 where
    n1: "requested s1 = requested s @ new1" "\<forall>(a, b) \<in> set new1. last_block s < a" by blast
  show ?case
  proof (cases "\<exists>err. out = Crashed err")
    case True
    then have "snd (run (e # es) s) = s1" using t by auto
    with n1 show ?thesis by auto
  next
    case False
    with Cons.prems t have k: "last_block s \<le> last_block s1" "cursor_kept es s1"
      by (cases out; simp)+
    from Cons.IH [OF k(2)] obtain new2 where
      n2: "requested (snd (run es s1)) = requested s1 @ new2"
          "\<forall>(a, b) \<in> set new2. last_block s1 < a" by blast
    have r: "snd (run (e # es) s) = snd (run es s1)"
      using t False by (cases out; simp split: prod.splits)
    have "requested (snd (run (e # es) s)) = requested s @ (new1 @ new2)"
      using r n1(1) n2(1) by simp
    moreover have "\<forall>(a, b) \<in> set (new1 @ new2). last_block s < a"
      using n1(2) n2(2) k(1) by fastforce
    ultimately show ?thesis by blast
  qed
qed

text \<open>
  Claim C3, as amended.  On a tick whose height query returns a height (not zero) that
  exceeds the cursor by more than the catch-up cap, the cursor is set to the height minus 2 before fetching (there it stays
  if processing raises), the only range requested in that tick is from the height minus
  1 to the height, and the blocks from the old cursor plus 1 to the height minus 3 are
  requested neither in that tick nor in any later tick, as long as no later tick lowers
  the cursor.  Within the cap the range requested starts right after the cursor and ends
  at the height.  In both cases the cursor is the height once processing has completed
  without an exception, and the tick either completes or ends in the handler.
\<close>

theorem catch_up_policy:
  assumes pc: "periodic_check e s = (None, s1)"
    and lb: "get_latest_block (latest_reply e) = Inr latest"
    and nz: "latest \<noteq> 0" and lt: "last_block s < latest"
    and t: "tick e s = (out, s')"
  shows "(if MAX_BLOCK_GAP < latest - last_block s
          then requested s' = requested s @ [(latest - 1, latest)]
               \<and> ((\<exists>err. out = Handled err) \<longrightarrow> last_block s' = latest - 2)
               \<and> (cursor_kept es s' \<longrightarrow>
                    (\<forall>k. last_block s + 1 \<le> k \<and> k \<le> latest - 3 \<longrightarrow>
                       \<not> (\<exists>(a, b) \<in> set (drop (length (requested s)) (requested (snd (run es s')))).
                             a \<le> k \<and> k \<le> b)))
          else requested s' = requested s @ [(last_block s + 1, latest)]
               \<and> ((\<exists>err. out = Handled err) \<longrightarrow> last_block s' = last_block s))
         \<and> ((\<exists>sl. out = Slept sl) \<longrightarrow> last_block s' = latest)
         \<and> ((\<exists>sl. out = Slept sl) \<or> (\<exists>err. out = Handled err))"
proof -
  from periodic_check_frame [OF pc] obtain n where s1: "s1 = s\<lparr>node := n\<rparr>" ..
  let ?s2 = "s1\<lparr>consecutive_errors := 0\<rparr>"
  have lt2: "last_block ?s2 < latest" using lt by (simp add: s1)
  obtain r s3 where nb: "new_blocks e latest ?s2 = (r, s3)"
    by (cases "new_blocks e latest ?s2")
  note f = new_blocks_frame [OF nb lt2]
  have l2: "last_block ?s2 = last_block s" "requested ?s2 = requested s" by (simp_all add: s1)
  note tk = tick_new_blocks [OF pc lb nz lt, unfolded nb]
  have req: "requested s' = requested s @
      [(if MAX_BLOCK_GAP < latest - last_block s then latest - 1 else last_block s + 1, latest)]"
    and slept: "(\<exists>sl. out = Slept sl) \<longrightarrow> last_block s' = latest"
    and handled: "(\<exists>err. out = Handled err) \<longrightarrow>
      last_block s' = (if MAX_BLOCK_GAP < latest - last_block s then latest - 2 else last_block s)"
    and either: "(\<exists>sl. out = Slept sl) \<or> (\<exists>err. out = Handled err)"
  proof -
    show "requested s' = requested s @
      [(if MAX_BLOCK_GAP < latest - last_block s then latest - 1 else last_block s + 1, latest)]"
      using tk t f(4) by (cases r) (auto simp: l2)
    show "(\<exists>sl. out = Slept sl) \<longrightarrow> last_block s' = latest"
      using tk t f(5) by (cases r) auto
    show "(\<exists>err. out = Handled err) \<longrightarrow>
      last_block s' = (if MAX_BLOCK_GAP < latest - last_block s then latest - 2 else last_block s)"
      using tk t f(6) by (cases r) (auto simp: l2)
    show "(\<exists>sl. out = Slept sl) \<or> (\<exists>err. out = Handled err)"
      using tk t by (cases r) auto
  qed
  have kept: "cursor_kept es s' \<longrightarrow>
       (\<forall>k. last_block s + 1 \<le> k \<and> k \<le> latest - 3 \<longrightarrow>
          \<not> (\<exists>(a, b) \<in> set (drop (length (requested s)) (requested (snd (run es s')))).
                a \<le> k \<and> k \<le> b))"
    if gap: "MAX_BLOCK_GAP < latest - last_block s"
  proof
    assume ck: "cursor_kept es s'"
    from run_requests_above_cursor [OF ck] obtain new where
      n: "requested (snd (run es s')) = requested s' @ new" "\<forall>(a, b) \<in> set new. last_block s' < a"
      by blast
    have cur: "latest - 2 \<le> last_block s'"
      using slept handled either gap by auto
    have d: "drop (length (requested s)) (requested (snd (run es s'))) = (latest - 1, latest) # new"
      using n(1) req gap by simp
    show "\<forall>k. last_block s + 1 \<le> k \<and> k \<le> latest - 3 \<longrightarrow>
          \<not> (\<exists>(a, b) \<in> set (drop (length (requested s)) (requested (snd (run es s')))).
                a \<le> k \<and> k \<le> b)"
      unfolding d using n(2) cur by fastforce
  qed
  show ?thesis
    using req slept handled either kept by auto
qed

lemma tick_env_with:
  assumes "get_latest_block reply = Inr h" and "h \<noteq> 0"
  shows "tick (env_with reply logs) s =
     (if last_block s < h then
        (case new_blocks (env_with reply logs) h (s\<lparr>consecutive_errors := 0\<rparr>) of
           (Some err, s3) \<Rightarrow> (Handled err, s3\<lparr>consecutive_errors := 1\<rparr>)
         | (None, s3) \<Rightarrow> (Slept (sleep_of (h - last_block s)), s3))
      else
        (case blocks_behind s of
           None \<Rightarrow> (Handled UnboundLocalError, s\<lparr>consecutive_errors := 1\<rparr>)
         | Some behind \<Rightarrow> (Slept (sleep_of behind), s\<lparr>consecutive_errors := 0\<rparr>)))"
proof -
  let ?e = "env_with reply logs"
  have pc: "periodic_check ?e s = (None, s)"
    by (simp add: periodic_check_not_due env_with_def)
  have lb: "get_latest_block (latest_reply ?e) = Inr h"
    by (simp add: env_with_def assms(1))
  show ?thesis
    using tick_new_blocks [OF pc lb assms(2)] tick_no_new_blocks [OF pc lb assms(2)] by simp
qed

lemma latest_0x1b9: "get_latest_block (Some ''0x1b9'') = Inr 441"
proof -
  have "hex_word ''1b9''" by (simp add: hex_word_def hex_digit_def)
  from get_latest_block_hex [OF this] show ?thesis
    by (simp add: spec_be_uint_def spec_payload_bytes_def digit_of_def hex_digit_def)
qed

lemma latest_0x1ae: "get_latest_block (Some ''0x1ae'') = Inr 430"
proof -
  have "hex_word ''1ae''" by (simp add: hex_word_def hex_digit_def)
  from get_latest_block_hex [OF this] show ?thesis
    by (simp add: spec_be_uint_def spec_payload_bytes_def digit_of_def hex_digit_def)
qed

lemma tick_lagging_env:
  "tick lagging_env s =
     (Handled ValueError,
      if 5 \<le> consecutive_errors s
      then s\<lparr>node := ''http://a/x'', last_block := 430, consecutive_errors := 0\<rparr>
      else s\<lparr>consecutive_errors := consecutive_errors s + 1\<rparr>)"
proof -
  have b: "loop_body lagging_env s = (Exc ValueError, s)"
    by (simp add: loop_body_def periodic_check_not_due lagging_env_def env_with_def
        get_latest_block_def py_int16_0x)
  have g: "get_best_rpc (probes_handler lagging_env) = Inr (''http://a/x'', 430)"
    by (simp add: lagging_env_def get_best_rpc_def latest_0x1ae has_host_part_a)
  show ?thesis
    by (simp add: tick_def b g Let_def)
qed

theorem catch_up_policy_witness:
  "requested (snd (tick (env_with (Some ''0x1b4'') []) (watcher_at 100))) = [(435, 436)]
   \<and> last_block (snd (tick (env_with (Some ''0x1b4'') []) (watcher_at 100))) = 436
   \<and> cursor_kept [env_with (Some ''0x1b9'') []]
        (snd (tick (env_with (Some ''0x1b4'') []) (watcher_at 100)))
   \<and> requested (snd (run [env_with (Some ''0x1b9'') []]
        (snd (tick (env_with (Some ''0x1b4'') []) (watcher_at 100))))) = [(435, 436), (437, 441)]
   \<and> requested (snd (tick (env_with (Some ''0x1b4'') []) (watcher_at 430))) = [(431, 436)]
   \<and> last_block (snd (tick (env_with (Some ''0x1b4'') []) (watcher_at 430))) = 436"
proof -
  let ?e = "env_with (Some ''0x1b4'') []"
  let ?f = "env_with (Some ''0x1b9'') []"
  have pc: "\<And>s. periodic_check ?e s = (None, s)"
    by (simp add: periodic_check_not_due env_with_def)
  have lb: "get_latest_block (latest_reply ?e) = Inr 436"
    by (simp add: env_with_def latest_0x1b4)
  have a: "tick ?e (watcher_at 100) =
      (Slept Sleep_fast, (watcher_at 436)\<lparr>blocks_behind := Some 336, requested := [(435, 436)]\<rparr>)"
    by (simp add: tick_env_0x1b4 new_blocks_no_logs watcher_at_def sleep_of_def MAX_BLOCK_GAP_def)
  have b: "fst (tick ?e (watcher_at 430)) = Slept Sleep_fast"
    by (simp add: tick_env_0x1b4 new_blocks_no_logs watcher_at_def sleep_of_def)
  have c: "tick ?f ((watcher_at 436)\<lparr>blocks_behind := Some 336, requested := [(435, 436)]\<rparr>) =
      (Slept Sleep_base, (watcher_at 441)\<lparr>blocks_behind := Some 5,
          requested := [(435, 436), (437, 441)]\<rparr>)"
    by (simp add: tick_env_with [OF latest_0x1b9] new_blocks_no_logs watcher_at_def sleep_of_def
        MAX_BLOCK_GAP_def)
  have k: "cursor_kept [?f] (snd (tick ?e (watcher_at 100)))"
    by (simp add: a c) (simp add: watcher_at_def)
  have r: "requested (snd (run [?f] (snd (tick ?e (watcher_at 100))))) = [(435, 436), (437, 441)]"
    by (simp add: a c)
  have nz: "(436 :: int) \<noteq> 0" by simp
  have "last_block (watcher_at 100) < 436" "last_block (watcher_at 430) < 436"
    by (simp_all add: watcher_at_def)
  from catch_up_policy [OF pc lb nz this(1) surjective_pairing, of "[?f]"]
       catch_up_policy [OF pc lb nz this(2) surjective_pairing, of "[]"] a b k r
  show ?thesis
    by (simp add: MAX_BLOCK_GAP_def) (simp add: watcher_at_def)
qed

text \<open>
  Claim C3 as stated fails in two ways.  From the cursor 100 a tick at height 436 skips
  the blocks 101 to 434; six ticks with a malformed height reply follow, the handler
  takes the height 430 of a lagging endpoint as the cursor, and the next tick requests
  the blocks 431 to 436, three of which had been skipped.  And within the cap, when a
  log of the batch makes the decoder raise, the range is requested but the cursor is
  not set to the height.
\<close>

theorem catch_up_policy_counterexample:
  "requested (snd (run [env_with (Some ''0x1b4'') [], lagging_env, lagging_env, lagging_env,
                        lagging_env, lagging_env, lagging_env, env_with (Some ''0x1b4'') []]
                       (watcher_at 100)))
     = [(435, 436), (431, 436)]
   \<and> fst (tick (env_with (Some ''0x1b4'') [empty_payload_log, example_log]) (watcher_at 435))
       = Handled ValueError
   \<and> requested (snd (tick (env_with (Some ''0x1b4'') [empty_payload_log, example_log])
         (watcher_at 435))) = [(436, 436)]
   \<and> last_block (snd (tick (env_with (Some ''0x1b4'') [empty_payload_log, example_log])
         (watcher_at 435))) = 435"
proof -
  have r: "requested (snd (run [env_with (Some ''0x1b4'') [], lagging_env, lagging_env, lagging_env,
                        lagging_env, lagging_env, lagging_env, env_with (Some ''0x1b4'') []]
                       (watcher_at 100)))
     = [(435, 436), (431, 436)]"
    by (simp add: tick_env_0x1b4 tick_lagging_env new_blocks_no_logs sleep_of_def
        MAX_BLOCK_GAP_def watcher_at_def)
  show ?thesis
    using r by (simp add: tick_empty_payload_log) (simp add: watcher_at_def)
qed

lemma collect_results_none_positive:
  "\<forall>p \<in> set probes. \<exists>b. get_latest_block (fst (snd p)) = Inr b \<and> b \<le> 0 \<Longrightarrow>
   collect_results probes acc = Inr acc"
  by (induction probes arbitrary: acc) auto

lemma get_best_rpc_fallback:
  "probes \<noteq> [] \<Longrightarrow>
   \<forall>p \<in> set probes. \<exists>b. get_latest_block (fst (snd p)) = Inr b \<and> b \<le> 0 \<Longrightarrow>
   get_best_rpc probes = Inr (fst (hd probes), 0)"
  by (simp add: get_best_rpc_def collect_results_none_positive)

text \<open>
  Claim C5, as amended.  When the list of endpoints is not empty, no probe raises and no
  endpoint reports a positive height, \<^verbatim>\<open>get_best_rpc\<close> does not fail: it returns the
  first configured endpoint with height 0.  Each caller in the loop then makes that first
  endpoint its active endpoint: the periodic check, the check after repeated zero
  heights, and the handler of the loop.
\<close>

theorem no_positive_height_selects_first:
  "probes \<noteq> [] \<and> (\<forall>p \<in> set probes. \<exists>b. get_latest_block (fst (snd p)) = Inr b \<and> b \<le> 0) \<longrightarrow>
     get_best_rpc probes = Inr (fst (hd probes), 0)
     \<and> (recheck_due e \<and> probes_periodic e = probes \<longrightarrow>
          node (snd (periodic_check e s)) = fst (hd probes))
     \<and> (3 \<le> consecutive_errors s \<and> probes_errors e = probes \<longrightarrow>
          node (snd (zero_height e s)) = fst (hd probes))
     \<and> (loop_body e s = (Exc err, s1) \<and> 5 \<le> consecutive_errors s1 \<and> probes_handler e = probes \<longrightarrow>
          node (snd (tick e s)) = fst (hd probes))"
proof -
  { assume a: "probes \<noteq> []"
      "\<forall>p \<in> set probes. \<exists>b. get_latest_block (fst (snd p)) = Inr b \<and> b \<le> 0"
    note g = get_best_rpc_fallback [OF a]
    have 1: "recheck_due e \<and> probes_periodic e = probes \<longrightarrow>
          node (snd (periodic_check e s)) = fst (hd probes)"
      by (auto simp: periodic_check_def g)
    have 2: "3 \<le> consecutive_errors s \<and> probes_errors e = probes \<longrightarrow>
          node (snd (zero_height e s)) = fst (hd probes)"
      by (auto simp: zero_height_def Let_def g)
    have 3: "loop_body e s = (Exc err, s1) \<and> 5 \<le> consecutive_errors s1 \<and> probes_handler e = probes \<longrightarrow>
          node (snd (tick e s)) = fst (hd probes)"
      by (auto simp: tick_def Let_def g)
    note g 1 2 3
  }
  then show ?thesis by blast
qed

theorem no_positive_height_selects_first_witness:
  "get_best_rpc silent_probes = Inr (''http://a/x'', 0)
   \<and> node (snd (periodic_check ((env_with None [])\<lparr>recheck_due := True, probes_periodic := silent_probes\<rparr>)
                  ((watcher_at 100)\<lparr>node := ''http://b/x''\<rparr>))) = ''http://a/x''"
proof -
  have a: "silent_probes \<noteq> []"
    "\<forall>p \<in> set silent_probes. \<exists>b. get_latest_block (fst (snd p)) = Inr b \<and> b \<le> 0"
    by (simp_all add: silent_probes_def get_latest_block_def)
  have h: "fst (hd silent_probes) = ''http://a/x''" by (simp add: silent_probes_def)
  show ?thesis
    using no_positive_height_selects_first [of silent_probes
        "(env_with None [])\<lparr>recheck_due := True, probes_periodic := silent_probes\<rparr>"
        "(watcher_at 100)\<lparr>node := ''http://b/x''\<rparr>"] a
    by (simp add: h)
qed

text \<open>
  Claim C5 as stated fails: the watcher uses endpoint \<open>b\<close>, the periodic check finds no
  endpoint with a positive height, and after the tick the watcher uses endpoint \<open>a\<close>,
  the first of the list.
\<close>

theorem keeps_previous_endpoint_counterexample:
  "get_best_rpc silent_probes = Inr (''http://a/x'', 0)
   \<and> node ((watcher_at 100)\<lparr>node := ''http://b/x''\<rparr>) = ''http://b/x''
   \<and> tick ((env_with None [])\<lparr>recheck_due := True, probes_periodic := silent_probes\<rparr>)
          ((watcher_at 100)\<lparr>node := ''http://b/x''\<rparr>)
       = (Retried, (watcher_at 100)\<lparr>consecutive_errors := 1\<rparr>)
   \<and> node ((watcher_at 100)\<lparr>consecutive_errors := 1\<rparr>) = ''http://a/x''"
proof -
  let ?e = "(env_with None [])\<lparr>recheck_due := True, probes_periodic := silent_probes\<rparr>"
  have g: "get_best_rpc silent_probes = Inr (''http://a/x'', 0)"
    by (simp add: silent_probes_def get_best_rpc_def get_latest_block_def)
  have p: "periodic_check ?e ((watcher_at 100)\<lparr>node := ''http://b/x''\<rparr>) = (None, watcher_at 100)"
    by (simp add: periodic_check_def g has_host_part_a) (simp add: watcher_at_def)
  have l: "get_latest_block (latest_reply (env_with None [])) = Inr 0"
    by (simp add: env_with_def get_latest_block_def)
  have z: "zero_height ?e (watcher_at 100) = (Continue, (watcher_at 100)\<lparr>consecutive_errors := 1\<rparr>)"
    by (simp add: zero_height_def Let_def watcher_at_def)
  have t: "tick ?e ((watcher_at 100)\<lparr>node := ''http://b/x''\<rparr>)
             = (Retried, (watcher_at 100)\<lparr>consecutive_errors := 1\<rparr>)"
    by (simp add: tick_def loop_body_def p l z)
  show ?thesis
    using g t by (simp add: watcher_at_def)
qed

subsection \<open>EndpointSelector\<close>

lemma dict_set_fresh: "k \<notin> fst ` set d \<Longrightarrow> dict_set k v d = d @ [(k, v)]"
  by (induction d) auto

lemma collect_results_distinct:
  assumes "\<forall>p \<in> set probes. \<exists>b. get_latest_block (fst (snd p)) = Inr b"
    and "distinct (map fst probes)"
    and "fst ` set acc \<inter> fst ` set probes = {}"
  shows "collect_results probes acc =
           Inr (acc @ map (\<lambda>p. (fst p, reported p, snd (snd p)))
                        (filter (\<lambda>p. reported p > 0) probes))"
  using assms
proof (induction probes arbitrary: acc)
  case Nil
  then show ?case by simp
next
  case (Cons p ps)
  obtain n r l where p: "p = (n, r, l)" by (cases p)
  from Cons.prems(1) p obtain b where b: "get_latest_block r = Inr b" by auto
  have rp: "reported (n, r, l) = b" by (simp add: reported_def b)
  have fresh: "n \<notin> fst ` set acc" using Cons.prems(3) p by auto
  have d: "distinct (map fst ps)" "n \<notin> fst ` set ps" using Cons.prems(2) p by auto
  have all: "\<forall>q \<in> set ps. \<exists>b. get_latest_block (fst (snd q)) = Inr b" using Cons.prems(1) by simp
  show ?case
  proof (cases "b > 0")
    case True
    have "fst ` set (acc @ [(n, b, l)]) \<inter> fst ` set ps = {}"
      using Cons.prems(3) d(2) by auto
    from Cons.IH [OF all d(1) this] True show ?thesis
      by (simp add: p b rp dict_set_fresh [OF fresh])
  next
    case False
    have "fst ` set acc \<inter> fst ` set ps = {}" using Cons.prems(3) by auto
    from Cons.IH [OF all d(1) this] False show ?thesis
      by (simp add: p b rp)
  qed
qed

lemma key_gt_trans: "key_gt a b \<Longrightarrow> key_gt b c \<Longrightarrow> key_gt a c"
  by (auto simp: key_gt_def)

lemma key_gt_neg_trans: "\<not> key_gt a b \<Longrightarrow> \<not> key_gt b c \<Longrightarrow> \<not> key_gt a c"
  by (auto simp: key_gt_def)

lemma max_item_best:
  "max_item best xs \<in> set (best # xs)
   \<and> (\<forall>x \<in> set (best # xs). \<not> key_gt (snd x) (snd (max_item best xs)))"
proof (induction xs arbitrary: best)
  case Nil
  show ?case by (simp add: key_gt_def)
next
  case (Cons x xs)
  let ?b = "if key_gt (snd x) (snd best) then x else best"
  let ?m = "max_item ?b xs"
  note ih = Cons.IH [of ?b]
  have m: "max_item best (x # xs) = ?m" by simp
  have b: "\<not> key_gt (snd ?b) (snd ?m)" using ih by simp
  have "\<not> key_gt (snd best) (snd ?m)"
  proof (cases "key_gt (snd x) (snd best)")
    case True
    with b have "\<not> key_gt (snd x) (snd ?m)" by simp
    with True show ?thesis using key_gt_trans by blast
  next
    case False
    with b show ?thesis by simp
  qed
  moreover have "\<not> key_gt (snd x) (snd ?m)"
  proof (cases "key_gt (snd x) (snd best)")
    case True
    with b show ?thesis by simp
  next
    case False
    with b have "\<not> key_gt (snd best) (snd ?m)" by simp
    with False show ?thesis using key_gt_neg_trans by blast
  qed
  moreover have "?m \<in> set (best # x # xs)" using ih by auto
  moreover have "\<forall>y \<in> set xs. \<not> key_gt (snd y) (snd ?m)" using ih by simp
  ultimately show ?case unfolding m by simp
qed

text \<open>
  Claim C4, as amended.  When the endpoints are distinct, no probe raises and at least
  one endpoint reports a positive height, \<^verbatim>\<open>get_best_rpc\<close> picks an endpoint such that no
  endpoint reports a greater height and none that reports the same height has a lower
  latency, and returns it with its height.  (The line that logs the choice prints the
  host part of the URL picked and raises \<^verbatim>\<open>IndexError\<close> for a URL with fewer than two
  slashes.)
\<close>

theorem get_best_rpc_best:
  assumes dist: "distinct (map fst probes)"
    and ok: "\<forall>p \<in> set probes. \<exists>b. get_latest_block (fst (snd p)) = Inr b"
    and pos: "\<exists>p \<in> set probes. reported p > 0"
  shows "\<exists>best \<in> set probes.
           reported best > 0
           \<and> (\<forall>p \<in> set probes. reported p \<le> reported best
                \<and> (reported p = reported best \<longrightarrow> snd (snd best) \<le> snd (snd p)))
           \<and> get_best_rpc probes =
               (if has_host_part (fst best) then Inr (fst best, reported best)
                else Inl IndexError)"
proof -
  let ?item = "\<lambda>p::probe. (fst p, reported p, snd (snd p))"
  let ?res = "map ?item (filter (\<lambda>p. reported p > 0) probes)"
  have cr: "collect_results probes [] = Inr ?res"
    using collect_results_distinct [OF ok dist, of "[]"] by simp
  from pos have ne: "?res \<noteq> []" by (auto simp: filter_empty_conv)
  then obtain r rs where res: "?res = r # rs" by (cases ?res) auto
  let ?m = "max_item r rs"
  from max_item_best [of r rs] res
  have mem: "?m \<in> set ?res" and top: "\<forall>x \<in> set ?res. \<not> key_gt (snd x) (snd ?m)"
    by simp_all
  from mem obtain best where best: "best \<in> set probes" "reported best > 0" "?m = ?item best"
    by auto
  have ne2: "probes \<noteq> []" using pos by auto
  have hp: "fst (snd ?m) = reported best" "fst ?m = fst best"
    by (simp_all add: best(3))
  have "get_best_rpc probes =
          (if has_host_part (fst ?m) then Inr (fst ?m, fst (snd ?m)) else Inl IndexError)"
    using ne2 by (simp add: get_best_rpc_def cr res Let_def del: max_item.simps)
  then have g: "get_best_rpc probes =
          (if has_host_part (fst best) then Inr (fst best, reported best) else Inl IndexError)"
    by (simp only: hp)
  have "\<forall>p \<in> set probes. reported p \<le> reported best
          \<and> (reported p = reported best \<longrightarrow> snd (snd best) \<le> snd (snd p))"
  proof
    fix p assume p: "p \<in> set probes"
    show "reported p \<le> reported best
          \<and> (reported p = reported best \<longrightarrow> snd (snd best) \<le> snd (snd p))"
    proof (cases "reported p > 0")
      case True
      with p have "?item p \<in> set ?res" by auto
      with top have "\<not> key_gt (snd (?item p)) (snd ?m)" by blast
      then show ?thesis by (auto simp: key_gt_def best(3))
    next
      case False
      with best(2) show ?thesis by simp
    qed
  qed
  with best g show ?thesis by blast
qed

theorem get_best_rpc_best_witness:
  "get_best_rpc example_probes = Inr (''http://c/x'', 105)"
proof -
  have h: "hex_word ''64''" "hex_word ''69''" by (simp_all add: hex_word_def hex_digit_def)
  have l: "get_latest_block (Some ''0x64'') = Inr 100" "get_latest_block (Some ''0x69'') = Inr 105"
    "get_latest_block None = Inr 0"
    using get_latest_block_hex [OF h(1)] get_latest_block_hex [OF h(2)]
    by (simp_all add: spec_be_uint_def spec_payload_bytes_def digit_of_def hex_digit_def
        get_latest_block_def)
  have r: "reported (''http://a/x'', Some ''0x64'', 1 / 2) = 100"
    "reported (''http://b/x'', Some ''0x69'', 3 / 10) = 105"
    "reported (''http://c/x'', Some ''0x69'', 1 / 10) = 105"
    "reported (''http://d/x'', None, 0) = 0"
    by (simp_all add: reported_def l)
  have 1: "distinct (map fst example_probes)" by (simp add: example_probes_def)
  have 2: "\<forall>p \<in> set example_probes. \<exists>b. get_latest_block (fst (snd p)) = Inr b"
    by (simp add: example_probes_def l)
  have 4: "\<exists>p \<in> set example_probes. reported p > 0"
    by (simp add: example_probes_def r)
  from get_best_rpc_best [OF 1 2 4] show ?thesis
    by (auto simp: example_probes_def r has_host_part_def)
qed

text \<open>
  Claim C4 as stated fails on probe results with a positive height.  When one endpoint
  reports 105 and the reply of another is the malformed \<^verbatim>\<open>0x\<close>, the selection raises.
  When an endpoint is listed twice, its later probe replaces the earlier one: with all
  probes at height 105, \<open>b\<close> is returned although the first probe of \<open>a\<close> was faster.
\<close>

theorem get_best_rpc_best_counterexample:
  "get_best_rpc malformed_probes = Inl ValueError
   \<and> reported (hd malformed_probes) = 105
   \<and> get_best_rpc repeated_probes = Inr (''http://b/x'', 105)
   \<and> hd repeated_probes = (''http://a/x'', Some ''0x69'', 1 / 10)
   \<and> reported (hd repeated_probes) = 105"
proof -
  have h: "hex_word ''69''" by (simp add: hex_word_def hex_digit_def)
  have l: "get_latest_block (Some ''0x69'') = Inr 105"
    using get_latest_block_hex [OF h]
    by (simp add: spec_be_uint_def spec_payload_bytes_def digit_of_def hex_digit_def)
  have b: "get_latest_block (Some ''0x'') = Inl ValueError"
    by (simp add: get_latest_block_def py_int16_0x)
  have 1: "get_best_rpc malformed_probes = Inl ValueError"
    by (simp add: get_best_rpc_def malformed_probes_def l b)
  have 2: "get_best_rpc repeated_probes = Inr (''http://b/x'', 105)"
    by (simp add: get_best_rpc_def repeated_probes_def l key_gt_def has_host_part_def)
  show ?thesis
    using 1 2 by (simp add: malformed_probes_def repeated_probes_def reported_def l)
qed

subsection \<open>DeliveryQueue\<close>

lemma zapier_worker_fifo:
  "zapier_worker sched queue sent = (queue', sent') \<Longrightarrow>
   sent' @ queue' = sent @ queue @ concat (map snd sched)"
proof (induction sched arbitrary: queue sent)
  case Nil
  then show ?case by simp
next
  case (Cons x sched)
  obtain r arrivals where x: "x = (r, arrivals)" by (cases x)
  show ?case
  proof (cases queue)
    case Nil
    with Cons.prems x have "zapier_worker sched arrivals sent = (queue', sent')" by simp
    from Cons.IH [OF this] Nil x show ?thesis by simp
  next
    case (Cons p rest)
    show ?thesis
    proof (cases r)
      case Post_raised
      with Cons.prems x Cons
      have "zapier_worker sched (p # rest @ arrivals) sent = (queue', sent')" by simp
      from Cons.IH [OF this] Cons x show ?thesis by simp
    next
      case (Response code)
      with Cons.prems x Cons
      have "zapier_worker sched (rest @ arrivals) (sent @ [p]) = (queue', sent')" by simp
      from Cons.IH [OF this] Cons x show ?thesis by simp
    qed
  qed
qed

lemma zapier_worker_retries:
  "zapier_worker (map (\<lambda>a. (Post_raised, a)) arrs @ [(Response code, arrivals)]) (p # rest) sent
     = (rest @ concat arrs @ arrivals, sent @ [p])"
  by (induction arrs arbitrary: rest) simp_all

text \<open>
  Claim C8.  One step of the consumer on a queue with head \<open>p\<close>: if the post raises,
  \<open>p\<close> is the head of the queue again, before the rest and before what arrived
  meanwhile, and nothing counts as sent; if the post returns a response, whatever its
  status code, \<open>p\<close> has left the queue.  So after any number of failed posts the first
  response delivers \<open>p\<close>, before every payload queued behind it; and over any schedule
  the payloads sent, followed by the queue, are all payloads queued, each once and in
  the order of their arrival.
\<close>

theorem zapier_worker_requeue:
  "zapier_worker_step Post_raised arrivals (p # rest) = (p # rest @ arrivals, None)
   \<and> zapier_worker_step (Response code) arrivals (p # rest) = (rest @ arrivals, Some p)
   \<and> zapier_worker (map (\<lambda>a. (Post_raised, a)) arrs @ [(Response code, arrivals)]) (p # rest) sent
        = (rest @ concat arrs @ arrivals, sent @ [p])
   \<and> (zapier_worker sched queue sent = (queue', sent') \<longrightarrow>
        sent' @ queue' = sent @ queue @ concat (map snd sched))"
  by (simp add: zapier_worker_retries zapier_worker_fifo)

theorem zapier_worker_requeue_witness:
  "zapier_worker [(Post_raised, [3]), (Post_raised, []), (Response 500, [4]), (Response 200, [])]
     [1, 2 :: nat] [] = ([3, 4], [1, 2])
   \<and> zapier_worker_step (Response 500) [4] [1, 2, 3 :: nat] = ([2, 3, 4], Some 1)"
  using zapier_worker_requeue [where arrivals = "[4]" and p = "1 :: nat" and rest = "[2, 3]"
      and code = 500 and arrs = "[]" and sent = "[]" and queue = "[1, 2]"
      and sched = "[(Post_raised, [3]), (Post_raised, []), (Response 500, [4]), (Response 200, [])]"
      and queue' = "[3, 4]" and sent' = "[1, 2]"]
  by simp

end
